theory Spec2Isabelle
  imports Main
begin

section \<open>Characters and text\<close>

text \<open>
  The scanner of \<^verbatim>\<open>app.py\<close> works on Python \<^verbatim>\<open>str\<close> values. A text is modelled as a
  \<^typ>\<open>string\<close> whose characters are the code points 0..255, and \<^const>\<open>length\<close> counts
  code points as Python's \<^verbatim>\<open>len\<close> does. The character tables below (line boundaries
  of \<^verbatim>\<open>str.splitlines\<close>, the classes \<^verbatim>\<open>\s\<close> and \<^verbatim>\<open>\w\<close> of \<^verbatim>\<open>re\<close>, simple lower
  casing) are those of Python 3 on that range.
\<close>

abbreviation NL :: char where "NL \<equiv> CHR 0x0A"
abbreviation CR :: char where "CR \<equiv> CHR 0x0D"
abbreviation SP :: char where "SP \<equiv> CHR 0x20"
abbreviation SQ :: char where "SQ \<equiv> CHR 0x27"
abbreviation DQ :: char where "DQ \<equiv> CHR 0x22"
abbreviation BSL :: char where "BSL \<equiv> CHR 0x5C"

definition is_linebreak :: "char \<Rightarrow> bool" where
  "is_linebreak c \<longleftrightarrow>
     c = NL \<or> c = CHR 0x0B \<or> c = CHR 0x0C \<or> c = CR \<or>
     c = CHR 0x1C \<or> c = CHR 0x1D \<or> c = CHR 0x1E \<or> c = CHR 0x85"

text \<open>
  \<^verbatim>\<open>src.splitlines(keepends=True)\<close>: the text is cut after every line boundary, each
  line keeps its terminator, \<^verbatim>\<open>\r\n\<close> is one terminator, and a last line without
  terminator is a line only when it is not empty. The first argument is the line
  collected so far.
\<close>

fun splitlines_from :: "string \<Rightarrow> string \<Rightarrow> string list" where
  "splitlines_from cur [] = (if cur = [] then [] else [cur])"
| "splitlines_from cur [c] = [cur @ [c]]"
| "splitlines_from cur (c # d # cs) =
     (if c = CR \<and> d = NL then (cur @ [c, d]) # splitlines_from [] cs
      else if is_linebreak c then (cur @ [c]) # splitlines_from [] (d # cs)
      else splitlines_from (cur @ [c]) (d # cs))"

definition splitlines :: "string \<Rightarrow> string list" where
  "splitlines src = splitlines_from [] src"

section \<open>Helpers\<close>

text \<open>\<^verbatim>\<open>line_of_offset\<close>: \<^verbatim>\<open>text.count("\n", 0, off) + 1\<close>.\<close>

definition line_of_offset :: "string \<Rightarrow> nat \<Rightarrow> nat" where
  "line_of_offset text off = length (filter (\<lambda>c. c = NL) (take off text)) + 1"

text \<open>
  \<^verbatim>\<open>snippet_at\<close>: the slice \<^verbatim>\<open>text[max(0, start - 140) : min(len(text), end + 140)]\<close>
  with every newline replaced by a backslash and the letter n.
\<close>

definition slice :: "string \<Rightarrow> nat \<Rightarrow> nat \<Rightarrow> string" where
  "slice text s e = take (e - s) (drop s text)"

definition escape_newlines :: "string \<Rightarrow> string" where
  "escape_newlines text = concat (map (\<lambda>c. if c = NL then [BSL, CHR ''n''] else [c]) text)"

definition snippet_at :: "string \<Rightarrow> nat \<Rightarrow> nat \<Rightarrow> string" where
  "snippet_at text start end =
     escape_newlines (slice text (start - 140) (min (length text) (end + 140)))"

section \<open>The sanitizer\<close>

text \<open>
  The inner \<^verbatim>\<open>for j in range(i, len(buf)): buf[j] = " "\<close> of the inline-comment
  branch, on the buffer \<^verbatim>\<open>buf = list(ln)\<close> that still holds the line's terminator.
\<close>

definition blank_to_end :: "char list \<Rightarrow> nat \<Rightarrow> char list" where
  "blank_to_end buf i = fold (\<lambda>j b. b[j := SP]) [i..<length buf] buf"

text \<open>
  The \<^verbatim>\<open>while i < len(buf)\<close> loop over one line, with its state \<^verbatim>\<open>buf\<close>, \<^verbatim>\<open>in_str\<close>
  and \<^verbatim>\<open>i\<close>; the result is the buffer at loop exit.
\<close>

function scan_line :: "char list \<Rightarrow> bool \<Rightarrow> nat \<Rightarrow> char list" where
  "scan_line buf in_str i =
     (if i < length buf then
        (if buf ! i = SQ then
           (if in_str then
              (if i + 1 < length buf \<and> buf ! (i + 1) = SQ then scan_line buf in_str (i + 2)
               else scan_line buf False (i + 1))
            else scan_line buf True (i + 1))
         else if buf ! i = DQ \<and> \<not> in_str then blank_to_end buf i
         else if in_str then scan_line (buf[i := SP]) in_str (i + 1)
         else scan_line buf in_str (i + 1))
      else buf)"
  by pat_completeness auto
termination
  by (relation "measure (\<lambda>(buf, in_str, i). length buf - i)") auto

declare scan_line.simps [simp del]

definition startswith_star :: "string \<Rightarrow> bool" where
  "startswith_star ln = (case ln of [] \<Rightarrow> False | c # _ \<Rightarrow> c = CHR ''*'')"

definition sanitize_line :: "string \<Rightarrow> string" where
  "sanitize_line ln =
     (if startswith_star ln then replicate (length ln) SP else scan_line ln False 0)"

definition rm_strings_and_comments :: "string \<Rightarrow> string" where
  "rm_strings_and_comments src = concat (map sanitize_line (splitlines src))"

section \<open>Regular expressions\<close>

text \<open>
  The program's patterns use a small fragment of Python's \<^verbatim>\<open>re\<close>: literals under
  \<^verbatim>\<open>IGNORECASE\<close>, the classes \<^verbatim>\<open>\s\<close> and \<^verbatim>\<open>[^.]\<close> under the greedy \<^verbatim>\<open>*\<close> and \<^verbatim>\<open>+\<close>,
  the greedy \<^verbatim>\<open>?\<close>, sequence, alternation, \<^verbatim>\<open>\b\<close> and capturing groups. \<^verbatim>\<open>re\<close> is a
  backtracking matcher; \<open>rx_match\<close> returns the ends (with the groups captured) of all the
  ways a pattern matches at a position, in the order backtracking tries them, so the head
  of the list is the match \<^verbatim>\<open>re\<close> reports. The groups are an association list from the
  group's name to its span, the latest capture first.
\<close>

definition lower :: "char \<Rightarrow> char" where
  "lower c =
     (let n = (of_char c :: nat) in
      if (65 \<le> n \<and> n \<le> 90) \<or> (192 \<le> n \<and> n \<le> 222 \<and> n \<noteq> 215) then char_of (n + 32) else c)"

text \<open>
  \<^verbatim>\<open>str.upper\<close> on the characters whose upper case is one character below 256: the
  letters \<^verbatim>\<open>a\<close> to \<^verbatim>\<open>z\<close> and \<^verbatim>\<open>\xe0\<close> to \<^verbatim>\<open>\xfe\<close> without \<^verbatim>\<open>\xf7\<close>. Python
  maps three more characters, which \<open>upper\<close> leaves as they are: \<^verbatim>\<open>\xdf\<close> to the two
  characters \<^verbatim>\<open>SS\<close>, and \<^verbatim>\<open>\xb5\<close> and \<^verbatim>\<open>\xff\<close> to code points above 255. The program
  applies \<^verbatim>\<open>str.upper\<close> to the names of \<open>TARGET_TABLES\<close> only, which have none of the
  three.
\<close>

definition upper :: "char \<Rightarrow> char" where
  "upper c =
     (let n = (of_char c :: nat) in
      if (97 \<le> n \<and> n \<le> 122) \<or> (224 \<le> n \<and> n \<le> 254 \<and> n \<noteq> 247) then char_of (n - 32) else c)"

definition is_space :: "char \<Rightarrow> bool" where
  "is_space c =
     (let n = (of_char c :: nat) in (9 \<le> n \<and> n \<le> 13) \<or> (28 \<le> n \<and> n \<le> 32) \<or> n = 133 \<or> n = 160)"

definition is_word :: "char \<Rightarrow> bool" where
  "is_word c =
     (let n = (of_char c :: nat) in
      (48 \<le> n \<and> n \<le> 57) \<or> (65 \<le> n \<and> n \<le> 90) \<or> n = 95 \<or> (97 \<le> n \<and> n \<le> 122) \<or>
      n = 170 \<or> n = 178 \<or> n = 179 \<or> n = 181 \<or> n = 185 \<or> n = 186 \<or>
      (188 \<le> n \<and> n \<le> 190) \<or> (192 \<le> n \<and> n \<noteq> 215 \<and> n \<noteq> 247))"

datatype cls = Space | NotDot

fun cls_ok :: "cls \<Rightarrow> char \<Rightarrow> bool" where
  "cls_ok Space c = is_space c"
| "cls_ok NotDot c = (c \<noteq> CHR ''.'')"

datatype rx =
    Str string
  | Star cls
  | Plus cls
  | Opt rx
  | Seq rx rx
  | Alt rx rx
  | Bnd
  | Grp string rx

type_synonym groups = "(string \<times> nat \<times> nat) list"

text \<open>A literal under \<^verbatim>\<open>IGNORECASE\<close>: the text character and the pattern character have the
  same lower case.\<close>

definition str_at :: "string \<Rightarrow> string \<Rightarrow> nat \<Rightarrow> bool" where
  "str_at w s p \<longleftrightarrow> p + length w \<le> length s \<and> map lower (take (length w) (drop p s)) = map lower w"

definition run :: "cls \<Rightarrow> string \<Rightarrow> nat \<Rightarrow> nat" where
  "run a s p = length (takeWhile (cls_ok a) (drop p s))"

text \<open>\<^verbatim>\<open>\b\<close>: exactly one of the characters before and at the position is a word character;
  outside the text there is none.\<close>

definition word_before :: "string \<Rightarrow> nat \<Rightarrow> bool" where
  "word_before s p \<longleftrightarrow> 0 < p \<and> p \<le> length s \<and> is_word (s ! (p - 1))"

definition word_at :: "string \<Rightarrow> nat \<Rightarrow> bool" where
  "word_at s p \<longleftrightarrow> p < length s \<and> is_word (s ! p)"

fun rx_match :: "rx \<Rightarrow> string \<Rightarrow> nat \<Rightarrow> groups \<Rightarrow> (nat \<times> groups) list" where
  "rx_match (Str w) s p g = (if str_at w s p then [(p + length w, g)] else [])"
| "rx_match (Star a) s p g = map (\<lambda>k. (p + k, g)) (rev [0..<Suc (run a s p)])"
| "rx_match (Plus a) s p g = map (\<lambda>k. (p + k, g)) (rev [1..<Suc (run a s p)])"
| "rx_match (Opt r) s p g = rx_match r s p g @ [(p, g)]"
| "rx_match (Seq r1 r2) s p g = concat (map (\<lambda>(q, h). rx_match r2 s q h) (rx_match r1 s p g))"
| "rx_match (Alt r1 r2) s p g = rx_match r1 s p g @ rx_match r2 s p g"
| "rx_match Bnd s p g = (if word_before s p \<noteq> word_at s p then [(p, g)] else [])"
| "rx_match (Grp n r) s p g = map (\<lambda>(q, h). (q, (n, p, q) # h)) (rx_match r s p g)"

record rmatch =
  m_start :: nat
  m_end :: nat
  m_groups :: groups

text \<open>
  \<^verbatim>\<open>pattern.finditer(s)\<close>: the leftmost match at or after the current position, then on
  from its end. No pattern of the program matches the empty string; an empty match would
  move the position on by one.
\<close>

function finditer_from :: "rx \<Rightarrow> string \<Rightarrow> nat \<Rightarrow> rmatch list" where
  "finditer_from r s pos =
     (if length s < pos then []
      else (case rx_match r s pos [] of
              [] \<Rightarrow> finditer_from r s (pos + 1)
            | (e, g) # _ \<Rightarrow>
                \<lparr>m_start = pos, m_end = e, m_groups = g\<rparr> #
                finditer_from r s (if pos < e then e else pos + 1)))"
  by pat_completeness auto
termination
  by (relation "measure (\<lambda>(r, s, pos). Suc (length s) - pos)") auto

declare finditer_from.simps [simp del]

definition finditer :: "rx \<Rightarrow> string \<Rightarrow> rmatch list" where
  "finditer r s = finditer_from r s 0"

text \<open>\<^verbatim>\<open>m.group(name)\<close>: the text of a group, \<^verbatim>\<open>None\<close> when the group took no part.\<close>

definition group :: "string \<Rightarrow> rmatch \<Rightarrow> string \<Rightarrow> string option" where
  "group s m n = map_option (\<lambda>(a, b). slice s a b) (map_of (m_groups m) n)"

fun seqs :: "rx list \<Rightarrow> rx" where
  "seqs [] = Str []"
| "seqs [r] = r"
| "seqs (r # rs) = Seq r (seqs rs)"

subsection \<open>The patterns of the program\<close>

definition STMT_SELECT_RE :: rx where
  "STMT_SELECT_RE = seqs [Bnd, Str ''SELECT'', Bnd, Star NotDot, Str ''.'']"

definition STMT_OPEN_CURSOR_RE :: rx where
  "STMT_OPEN_CURSOR_RE = seqs [Bnd, Str ''OPEN'', Plus Space, Str ''CURSOR'', Bnd, Star NotDot, Str ''.'']"

definition TABLE_NAME_RE :: rx where
  "TABLE_NAME_RE = Alt (Seq (Str ''t881'') (Opt (Str ''t''))) (Str ''t882g'')"

definition TABLE_TOKEN :: rx where
  "TABLE_TOKEN =
     seqs [Opt (Str ''@''), Star Space, Opt (Str ''(''), Star Space,
           Grp ''table'' TABLE_NAME_RE, Star Space, Opt (Str '')'')]"

definition FROM_OR_JOIN_TARGET_RE :: rx where
  "FROM_OR_JOIN_TARGET_RE =
     seqs [Bnd, Alt (Str ''FROM'') (Str ''JOIN''), Plus Space, TABLE_TOKEN, Bnd]"

definition WRITE_STMT_RE :: rx where
  "WRITE_STMT_RE =
     Alt (seqs [Bnd, Grp ''1'' (Alt (Str ''INSERT'') (Alt (Str ''UPDATE'') (Str ''MODIFY''))),
                Plus Space,
                Opt (seqs [Opt (Str ''@''), Star Space, Str ''('', Star Space]),
                Grp ''table1'' TABLE_NAME_RE, Star Space,
                Opt (seqs [Str '')'', Star Space]),
                Star NotDot, Str ''.''])
         (seqs [Bnd, Str ''DELETE'', Plus Space,
                Opt (seqs [Str ''FROM'', Plus Space]),
                Opt (seqs [Opt (Str ''@''), Star Space, Str ''('', Star Space]),
                Grp ''table2'' TABLE_NAME_RE, Star Space,
                Opt (seqs [Str '')'', Star Space]),
                Star NotDot, Str ''.''])"

section \<open>Models\<close>

text \<open>
  \<^verbatim>\<open>Unit\<close> and the dictionaries \<^verbatim>\<open>scan_unit\<close> builds: a finding carries the unit's
  metadata, and the result is \<^verbatim>\<open>unit.model_dump()\<close> with the key
  \<^verbatim>\<open>rule628_findings\<close> added. Optional fields are options.
\<close>

record Meta =
  pgm_name :: string
  inc_name :: string
  type :: string
  name :: "string option"
  start_line :: "int option"
  end_line :: "int option"

record Unit = Meta +
  code :: "string option"

record Finding = Meta +
  issue_type :: string
  severity :: string
  line :: nat
  message :: string
  suggestion :: string
  snippet :: string

record Scanned = Unit +
  rule628_findings :: "Finding list"

datatype error = KeyError string

section \<open>Tables and suggestions\<close>

definition TARGET_TABLES :: "string list" where
  "TARGET_TABLES = [''t881'', ''t881t'', ''t882g'']"

definition METHOD_MAP :: "string \<rightharpoonup> string" where
  "METHOD_MAP = map_of
     [(''t881'', ''cl_fins_acdoc_util=>get_t881_emu''),
      (''t881t'', ''cl_fins_acdoc_util=>get_t881t_emu''),
      (''t882g'', ''cl_fins_acdoc_util=>get_t882g_emu'')]"

text \<open>\<^verbatim>\<open>METHOD_MAP[table]\<close> raises \<^verbatim>\<open>KeyError\<close> on a key that is not in the dictionary.\<close>

definition method_of :: "string \<Rightarrow> error + string" where
  "method_of table = (case METHOD_MAP table of None \<Rightarrow> Inl (KeyError table) | Some m \<Rightarrow> Inr m)"

text \<open>\<^verbatim>\<open>canon\<close>: \<^verbatim>\<open>s.lower() if s else None\<close>; the empty string is falsy.\<close>

fun canon :: "string option \<Rightarrow> string option" where
  "canon None = None"
| "canon (Some []) = None"
| "canon (Some s) = Some (map lower s)"

text \<open>\<^verbatim>\<open>a or b\<close> on optional strings.\<close>

fun py_or :: "string option \<Rightarrow> string option \<Rightarrow> string option" where
  "py_or None b = b"
| "py_or (Some []) b = b"
| "py_or (Some s) b = Some s"

text \<open>
  \<^verbatim>\<open>find_tables_in_select\<close>: the generator's loop over the matches of
  \<open>FROM_OR_JOIN_TARGET_RE\<close>, yielding the table, start and end of each match whose
  canonical table is a target table.
\<close>

fun yield_tables :: "string \<Rightarrow> rmatch list \<Rightarrow> (string \<times> nat \<times> nat) list" where
  "yield_tables stmt [] = []"
| "yield_tables stmt (m # ms) =
     (case canon (group stmt m ''table'') of
        None \<Rightarrow> yield_tables stmt ms
      | Some tb \<Rightarrow>
          if tb \<in> set TARGET_TABLES then (tb, m_start m, m_end m) # yield_tables stmt ms
          else yield_tables stmt ms)"

definition find_tables_in_select :: "string \<Rightarrow> (string \<times> nat \<times> nat) list" where
  "find_tables_in_select stmt = yield_tables stmt (finditer FROM_OR_JOIN_TARGET_RE stmt)"

definition example_t881 :: string where
  "example_t881 =
     ''Example:'' @ [NL] @
     ''  DATA(ls_t881) = VALUE t881( ).'' @ [NL] @
     ''  cl_fins_acdoc_util=>get_t881_emu('' @ [NL] @
     ''    EXPORTING iv_rldnr = lv_rldnr'' @ [NL] @
     ''    IMPORTING es_t881  = ls_t881'' @ [NL] @
     ''    EXCEPTIONS not_found = 1 OTHERS = 2 ).'' @ [NL]"

definition example_t881t :: string where
  "example_t881t =
     ''Example:'' @ [NL] @
     ''  DATA(ls_t881t) = VALUE t881t( ).'' @ [NL] @
     ''  cl_fins_acdoc_util=>get_t881t_emu('' @ [NL] @
     ''    EXPORTING iv_rldnr = lv_rldnr iv_spras = sy-langu'' @ [NL] @
     ''    IMPORTING es_t881t = ls_t881t'' @ [NL] @
     ''    EXCEPTIONS not_found = 1 OTHERS = 2 ).'' @ [NL]"

definition example_t882g :: string where
  "example_t882g =
     ''Example:'' @ [NL] @
     ''  DATA(ls_t882g) = VALUE t882g( ).'' @ [NL] @
     ''  cl_fins_acdoc_util=>get_t882g_emu('' @ [NL] @
     ''    EXPORTING iv_bukrs = lv_bukrs iv_rldnr = lv_rldnr'' @ [NL] @
     ''    IMPORTING es_t882g = ls_t882g'' @ [NL] @
     ''    EXCEPTIONS not_found = 1 OTHERS = 2 ).'' @ [NL]"

definition suggestion_for_read :: "string \<Rightarrow> error + string" where
  "suggestion_for_read table =
     (case method_of table of
        Inl e \<Rightarrow> Inl e
      | Inr method \<Rightarrow>
          Inr (if table = ''t881'' then
                 ''Replace direct read of '' @ map upper table @ '' with '' @ method @ ''.'' @
                 [NL, NL] @ example_t881
               else if table = ''t881t'' then
                 ''Replace direct read of '' @ map upper table @ '' with '' @ method @ ''.'' @
                 [NL, NL] @ example_t881t
               else if table = ''t882g'' then
                 ''Replace direct read of '' @ map upper table @ '' with '' @ method @ ''.'' @
                 [NL, NL] @ example_t882g
               else ''Use '' @ method @ ''.''))"

definition suggestion_for_write :: "string \<Rightarrow> string" where
  "suggestion_for_write table =
     ''Direct writes to '' @ map upper table @ '' are disallowed in S/4HANA. '' @
     ''These tables are obsolete customizing; redesign to use the supported '' @
     ''configuration/APIs and remove the DML.''"

section \<open>The scanner\<close>

text \<open>A \<^verbatim>\<open>for\<close> loop over a list with a state, stopping at the first exception.\<close>

fun for_each :: "'a list \<Rightarrow> ('a \<Rightarrow> 's \<Rightarrow> error + 's) \<Rightarrow> 's \<Rightarrow> error + 's" where
  "for_each [] body st = Inr st"
| "for_each (x # xs) body st =
     (case body x st of Inl e \<Rightarrow> Inl e | Inr st' \<Rightarrow> for_each xs body st')"

definition finding :: "Unit \<Rightarrow> string \<Rightarrow> string \<Rightarrow> nat \<Rightarrow> string \<Rightarrow> string \<Rightarrow> string \<Rightarrow> Finding" where
  "finding u it sev ln msg sug snip =
     \<lparr>pgm_name = pgm_name u, inc_name = inc_name u, type = type u, name = name u,
      start_line = start_line u, end_line = end_line u,
      issue_type = it, severity = sev, line = ln, message = msg, suggestion = sug,
      snippet = snip\<rparr>"

text \<open>The character U+2026 of the first message lies outside the code points 0..255; it
  stands here as the three bytes of its UTF-8 form.\<close>

definition ELLIPSIS :: string where
  "ELLIPSIS = [CHR 0xE2, CHR 0x80, CHR 0xA6]"

definition msg_select :: "string \<Rightarrow> string \<Rightarrow> string" where
  "msg_select tb method =
     ''Direct read from '' @ map upper tb @ '' detected in SELECT. '' @
     ''Use '' @ method @ '' instead of SELECT '' @ ELLIPSIS @ '' FROM '' @ map upper tb @ ''.''"

definition msg_cursor :: "string \<Rightarrow> string \<Rightarrow> string" where
  "msg_cursor tb method =
     ''Direct read from '' @ map upper tb @ '' via OPEN CURSOR FOR SELECT. '' @
     ''Use '' @ method @ '' instead.''"

definition msg_write :: "string \<Rightarrow> string" where
  "msg_write tb =
     ''Disallowed write to '' @ map upper tb @ '' detected. Avoid DML on obsolete tables.''"

text \<open>The body of the two read passes' \<^verbatim>\<open>for\<close> statements: one finding appended per table match
  of a statement.\<close>

definition read_body ::
  "Unit \<Rightarrow> string \<Rightarrow> string \<Rightarrow> (string \<Rightarrow> string \<Rightarrow> string) \<Rightarrow> rmatch \<Rightarrow>
   Finding list \<Rightarrow> error + Finding list" where
  "read_body u raw src msg m findings =
     for_each
       (find_tables_in_select (slice src (m_start m) (m_end m)))
       (\<lambda>(tb, tstart, tend) fs.
          case method_of tb of
            Inl e \<Rightarrow> Inl e
          | Inr method \<Rightarrow>
              (case suggestion_for_read tb of
                 Inl e \<Rightarrow> Inl e
               | Inr sug \<Rightarrow>
                   Inr (fs @ [finding u ''DirectRead'' ''info'' (line_of_offset src (m_start m))
                                (msg tb method) sug (snippet_at raw (m_start m) (m_end m))])))
       findings"

text \<open>\<^verbatim>\<open>canon(m.group("table1") or m.group("table2"))\<close> of the write loop.\<close>

definition write_table :: "string \<Rightarrow> rmatch \<Rightarrow> string option" where
  "write_table src m = canon (py_or (group src m ''table1'') (group src m ''table2''))"

definition write_body ::
  "Unit \<Rightarrow> string \<Rightarrow> string \<Rightarrow> rmatch \<Rightarrow> Finding list \<Rightarrow> error + Finding list" where
  "write_body u raw src m findings =
     (case write_table src m of
        None \<Rightarrow> Inr findings
      | Some tb \<Rightarrow>
          if tb \<in> set TARGET_TABLES then
            Inr (findings @ [finding u ''DisallowedWrite'' ''warning''
                               (line_of_offset src (m_start m)) (msg_write tb)
                               (suggestion_for_write tb) (snippet_at raw (m_start m) (m_end m))])
          else Inr findings)"

definition scan_unit :: "Unit \<Rightarrow> error + Scanned" where
  "scan_unit u =
     (let raw = (case code u of None \<Rightarrow> [] | Some c \<Rightarrow> c);
          src = rm_strings_and_comments raw
      in case for_each (finditer STMT_SELECT_RE src) (read_body u raw src msg_select) [] of
           Inl e \<Rightarrow> Inl e
         | Inr f1 \<Rightarrow>
      (case for_each (finditer STMT_OPEN_CURSOR_RE src) (read_body u raw src msg_cursor) f1 of
           Inl e \<Rightarrow> Inl e
         | Inr f2 \<Rightarrow>
      (case for_each (finditer WRITE_STMT_RE src) (write_body u raw src) f2 of
           Inl e \<Rightarrow> Inl e
         | Inr f3 \<Rightarrow>
             Inr \<lparr>pgm_name = pgm_name u, inc_name = inc_name u, type = type u, name = name u,
                  start_line = start_line u, end_line = end_line u, code = code u,
                  rule628_findings = f3\<rparr>)))"

section \<open>Endpoints\<close>

text \<open>\<^verbatim>\<open>scan_rule_array\<close> keeps a result when \<^verbatim>\<open>res.get("rule628_findings")\<close> is truthy,
  that is when the list is not empty.\<close>

definition scan_rule_array :: "Unit list \<Rightarrow> error + Scanned list" where
  "scan_rule_array units =
     for_each units
       (\<lambda>u results.
          case scan_unit u of
            Inl e \<Rightarrow> Inl e
          | Inr res \<Rightarrow> Inr (if rule628_findings res \<noteq> [] then results @ [res] else results))
       []"

definition scan_rule_single :: "Unit \<Rightarrow> error + Scanned" where
  "scan_rule_single u = scan_unit u"

section \<open>Notions used in the statements\<close>

text \<open>The sanitizer's output character is the input character or a space.\<close>

definition kept_or_blank :: "char \<Rightarrow> char \<Rightarrow> bool" where
  "kept_or_blank a b \<longleftrightarrow> b = a \<or> b = SP"

text \<open>
  A mention of the name \<open>w\<close> at offset \<open>p\<close> of the raw text is visible when the sanitizer
  leaves all its characters as they are, that is when no part of it lies in a string
  literal or a comment as the sanitizer sees them.
\<close>

definition visible_mention :: "string \<Rightarrow> string \<Rightarrow> nat \<Rightarrow> bool" where
  "visible_mention raw w p \<longleftrightarrow>
     str_at w raw p \<and>
     slice (rm_strings_and_comments raw) p (p + length w) = slice raw p (p + length w)"

definition no_visible_mention :: "string \<Rightarrow> bool" where
  "no_visible_mention raw \<longleftrightarrow>
     list_all (\<lambda>w. list_all (\<lambda>p. \<not> visible_mention raw w p) [0..<length raw]) TARGET_TABLES"

text \<open>The text a unit is scanned as: \<^verbatim>\<open>unit.code or ""\<close>.\<close>

definition raw_of :: "Unit \<Rightarrow> string" where
  "raw_of u = (case code u of None \<Rightarrow> [] | Some c \<Rightarrow> c)"

text \<open>Every match of a pattern contains one of the words \<open>ws\<close>, read off the pattern.\<close>

fun requires :: "string list \<Rightarrow> rx \<Rightarrow> bool" where
  "requires ws (Str w) = (w \<in> set ws)"
| "requires ws (Star a) = False"
| "requires ws (Plus a) = False"
| "requires ws (Opt r) = False"
| "requires ws (Seq r1 r2) = (requires ws r1 \<or> requires ws r2)"
| "requires ws (Alt r1 r2) = (requires ws r1 \<and> requires ws r2)"
| "requires ws Bnd = False"
| "requires ws (Grp n r) = requires ws r"

text \<open>The least length of a match, read off the pattern.\<close>

fun min_len :: "rx \<Rightarrow> nat" where
  "min_len (Str w) = length w"
| "min_len (Star a) = 0"
| "min_len (Plus a) = 1"
| "min_len (Opt r) = 0"
| "min_len (Seq r1 r2) = min_len r1 + min_len r2"
| "min_len (Alt r1 r2) = min (min_len r1) (min_len r2)"
| "min_len Bnd = 0"
| "min_len (Grp n r) = min_len r"

text \<open>
  The hits of a read pass in the order the scanner meets them: every statement span of the
  pass with every table match inside it. The hits of the write pass: every statement match
  with its table.
\<close>

definition read_hits :: "rx \<Rightarrow> string \<Rightarrow> (rmatch \<times> string \<times> nat \<times> nat) list" where
  "read_hits r src =
     concat (map (\<lambda>m. map (Pair m) (find_tables_in_select (slice src (m_start m) (m_end m))))
                 (finditer r src))"

definition write_hit :: "string \<Rightarrow> rmatch \<Rightarrow> (rmatch \<times> string) list" where
  "write_hit src m =
     (case write_table src m of
        None \<Rightarrow> []
      | Some tb \<Rightarrow> if tb \<in> set TARGET_TABLES then [(m, tb)] else [])"

definition write_hits :: "string \<Rightarrow> (rmatch \<times> string) list" where
  "write_hits src = concat (map (write_hit src) (finditer WRITE_STMT_RE src))"

text \<open>The offset in the scanned text at which a hit's table match starts.\<close>

definition read_offset :: "rmatch \<times> string \<times> nat \<times> nat \<Rightarrow> nat" where
  "read_offset h = (case h of (m, tb, tstart, tend) \<Rightarrow> m_start m + tstart)"

definition write_offset :: "rmatch \<times> string \<Rightarrow> nat" where
  "write_offset h = m_start (fst h)"

text \<open>The finding a hit gives.\<close>

definition read_finding ::
  "Unit \<Rightarrow> string \<Rightarrow> string \<Rightarrow> (string \<Rightarrow> string \<Rightarrow> string) \<Rightarrow>
   rmatch \<times> string \<times> nat \<times> nat \<Rightarrow> Finding" where
  "read_finding u raw src msg h =
     (case h of (m, tb, tstart, tend) \<Rightarrow>
        finding u ''DirectRead'' ''info'' (line_of_offset src (m_start m))
          (msg tb (projr (method_of tb))) (projr (suggestion_for_read tb))
          (snippet_at raw (m_start m) (m_end m)))"

definition write_finding :: "Unit \<Rightarrow> string \<Rightarrow> string \<Rightarrow> rmatch \<times> string \<Rightarrow> Finding" where
  "write_finding u raw src h =
     (case h of (m, tb) \<Rightarrow>
        finding u ''DisallowedWrite'' ''warning'' (line_of_offset src (m_start m))
          (msg_write tb) (suggestion_for_write tb) (snippet_at raw (m_start m) (m_end m)))"

definition findings_of :: "Unit \<Rightarrow> Finding list" where
  "findings_of u =
     (let raw = raw_of u; src = rm_strings_and_comments raw
      in map (read_finding u raw src msg_select) (read_hits STMT_SELECT_RE src) @
         map (read_finding u raw src msg_cursor) (read_hits STMT_OPEN_CURSOR_RE src) @
         map (write_finding u raw src) (write_hits src))"

definition scanned :: "Unit \<Rightarrow> Scanned" where
  "scanned u =
     \<lparr>pgm_name = pgm_name u, inc_name = inc_name u, type = type u, name = name u,
      start_line = start_line u, end_line = end_line u, code = code u,
      rule628_findings = findings_of u\<rparr>"

text \<open>A unit with all its fields given, for closed instances.\<close>

definition demo_unit :: "string \<Rightarrow> Unit" where
  "demo_unit c =
     \<lparr>pgm_name = ''ZDEMO'', inc_name = ''ZDEMO_TOP'', type = ''PROG'', name = Some ''ZDEMO'',
      start_line = Some 1, end_line = Some 10, code = Some c\<rparr>"

text \<open>
  String literals and comments, read from the text. \<open>mark_chars\<close> goes through one line
  and says of every character whether it stands in a comment or inside a string literal:
  outside a literal, a double quote marks itself and the rest of the line, and a single
  quote opens a literal; inside a literal, a doubled single quote is an escaped quote and a
  single quote closes the literal; the characters between the quotes are marked, the quotes
  are not; a literal that is not closed runs to the end of its line.
\<close>

fun mark_chars :: "bool \<Rightarrow> string \<Rightarrow> bool list" where
  "mark_chars in_str [] = []"
| "mark_chars False (c # cs) =
     (if c = SQ then False # mark_chars True cs
      else if c = DQ then replicate (Suc (length cs)) True
      else False # mark_chars False cs)"
| "mark_chars True [c] = (if c = SQ then [False] else [True])"
| "mark_chars True (c # d # cs) =
     (if c = SQ then
        (if d = SQ then False # False # mark_chars True cs
         else False # mark_chars False (d # cs))
      else True # mark_chars True (d # cs))"

text \<open>A line that starts with \<^verbatim>\<open>*\<close> is a comment as a whole.\<close>

definition mark_line :: "string \<Rightarrow> bool list" where
  "mark_line ln =
     (if startswith_star ln then replicate (length ln) True else mark_chars False ln)"

text \<open>
  The lines of a text when only the newline ends a line, terminators kept. This is the
  line that \<^verbatim>\<open>line_of_offset\<close> counts, where \<open>splitlines\<close> is the line of
  \<^verbatim>\<open>str.splitlines\<close>, which also ends at a carriage return, a vertical tab, a form feed,
  the separators \<^verbatim>\<open>\x1c\<close> to \<^verbatim>\<open>\x1e\<close> and \<^verbatim>\<open>\x85\<close>.
\<close>

fun lines_nl_from :: "string \<Rightarrow> string \<Rightarrow> string list" where
  "lines_nl_from cur [] = (if cur = [] then [] else [cur])"
| "lines_nl_from cur (c # cs) =
     (if c = NL then (cur @ [c]) # lines_nl_from [] cs else lines_nl_from (cur @ [c]) cs)"

definition lines_nl :: "string \<Rightarrow> string list" where
  "lines_nl src = lines_nl_from [] src"

text \<open>The marking of a text, line by line, for a given division into lines.\<close>

definition marks :: "(string \<Rightarrow> string list) \<Rightarrow> string \<Rightarrow> bool list" where
  "marks split raw = concat (map mark_line (split raw))"

text \<open>The text with its marked characters replaced by spaces.\<close>

definition blank :: "bool list \<Rightarrow> string \<Rightarrow> string" where
  "blank ms text = map (\<lambda>(m, c). if m then SP else c) (zip ms text)"

text \<open>
  All mentions of the target tables are hidden: every occurrence of a name of
  \<open>TARGET_TABLES\<close> in the raw text, in any case, lies wholly in marked characters, that is
  inside a string literal, after an inline comment marker or on a comment line.
\<close>

definition mentions_hidden :: "(string \<Rightarrow> string list) \<Rightarrow> string \<Rightarrow> bool" where
  "mentions_hidden split raw \<longleftrightarrow>
     list_all
       (\<lambda>w. list_all
              (\<lambda>p. \<not> str_at w raw p \<or> list_all (\<lambda>j. marks split raw ! j) [p..<p + length w])
              [0..<length raw])
       TARGET_TABLES"

section \<open>Evaluation rules\<close>

lemma lower_Char:
  "lower (Char b0 b1 b2 b3 b4 b5 b6 b7) =
     (let n = (of_char (Char b0 b1 b2 b3 b4 b5 b6 b7) :: nat) in
      if (65 \<le> n \<and> n \<le> 90) \<or> (192 \<le> n \<and> n \<le> 222 \<and> n \<noteq> 215)
      then Char b0 b1 b2 b3 b4 True b6 b7 else Char b0 b1 b2 b3 b4 b5 b6 b7)"
  by (cases b0; cases b1; cases b2; cases b3; cases b4; cases b5; cases b6; cases b7;
      simp add: lower_def char_of_eq_iff)

lemma upper_Char:
  "upper (Char b0 b1 b2 b3 b4 b5 b6 b7) =
     (let n = (of_char (Char b0 b1 b2 b3 b4 b5 b6 b7) :: nat) in
      if (97 \<le> n \<and> n \<le> 122) \<or> (224 \<le> n \<and> n \<le> 254 \<and> n \<noteq> 247)
      then Char b0 b1 b2 b3 b4 False b6 b7 else Char b0 b1 b2 b3 b4 b5 b6 b7)"
  by (cases b0; cases b1; cases b2; cases b3; cases b4; cases b5; cases b6; cases b7;
      simp add: upper_def char_of_eq_iff)

lemmas san_eval =
  rm_strings_and_comments_def splitlines_def is_linebreak_def sanitize_line_def
  startswith_star_def blank_to_end_def scan_line.simps

lemmas rx_eval =
  finditer_def finditer_from.simps
  STMT_SELECT_RE_def STMT_OPEN_CURSOR_RE_def FROM_OR_JOIN_TARGET_RE_def TABLE_TOKEN_def
  TABLE_NAME_RE_def WRITE_STMT_RE_def
  str_at_def run_def word_before_def word_at_def lower_Char is_word_def is_space_def Let_def

lemmas tb_eval =
  find_tables_in_select_def write_table_def group_def slice_def TARGET_TABLES_def lower_Char

lemmas out_eval =
  method_of_def METHOD_MAP_def suggestion_for_read_def suggestion_for_write_def finding_def
  line_of_offset_def snippet_at_def escape_newlines_def slice_def msg_select_def
  msg_cursor_def msg_write_def upper_Char

lemmas mention_eval =
  no_visible_mention_def visible_mention_def raw_of_def TARGET_TABLES_def str_at_def slice_def
  lower_Char Let_def

section \<open>The sanitizer keeps the length and changes characters to spaces only\<close>

lemma concat_splitlines_from: "concat (splitlines_from cur s) = cur @ s"
  by (induction cur s rule: splitlines_from.induct) auto

lemma concat_splitlines: "concat (splitlines s) = s"
  by (simp add: splitlines_def concat_splitlines_from)

lemma kob_refl: "list_all2 kept_or_blank xs xs"
  by (simp add: list_all2_refl kept_or_blank_def)

lemma kob_update: "list_all2 kept_or_blank xs ys \<Longrightarrow> list_all2 kept_or_blank xs (ys[j := SP])"
  unfolding list_all2_conv_all_nth kept_or_blank_def
  by (metis length_list_update nth_list_update_eq nth_list_update_neq)

lemma kob_blank_fold:
  "list_all2 kept_or_blank xs buf \<Longrightarrow>
   list_all2 kept_or_blank xs (fold (\<lambda>j b. b[j := SP]) js buf)"
  by (induction js arbitrary: buf) (auto simp: kob_update)

lemma kob_scan_line:
  "list_all2 kept_or_blank xs buf \<Longrightarrow> list_all2 kept_or_blank xs (scan_line buf in_str i)"
proof (induction buf in_str i rule: scan_line.induct)
  case (1 buf in_str i)
  show ?case
    by (subst scan_line.simps)
       (use 1 in \<open>simp add: blank_to_end_def kob_blank_fold kob_update\<close>)
qed

lemma kob_sanitize_line: "list_all2 kept_or_blank ln (sanitize_line ln)"
proof (cases "startswith_star ln")
  case True
  then show ?thesis
    by (simp add: sanitize_line_def list_all2_conv_all_nth kept_or_blank_def)
next
  case False
  then show ?thesis
    by (simp add: sanitize_line_def kob_scan_line kob_refl)
qed

lemma kob_concat: "list_all2 kept_or_blank (concat ls) (concat (map sanitize_line ls))"
  by (induction ls) (auto intro: list_all2_appendI kob_sanitize_line)

lemma kob_rm: "list_all2 kept_or_blank src (rm_strings_and_comments src)"
  using kob_concat [of "splitlines src"]
  by (simp add: rm_strings_and_comments_def concat_splitlines)

lemma length_rm_strings_and_comments: "length (rm_strings_and_comments src) = length src"
  using kob_rm [of src] by (simp add: list_all2_lengthD)

lemma rm_nth:
  "i < length src \<Longrightarrow>
   rm_strings_and_comments src ! i = src ! i \<or> rm_strings_and_comments src ! i = SP"
  using kob_rm [of src] by (auto simp: list_all2_conv_all_nth kept_or_blank_def)

section \<open>Matches lie in the text, in textual order\<close>

lemma run_le: "p + run a s p \<le> max p (length s)"
proof -
  have "length (takeWhile (cls_ok a) (drop p s)) \<le> length (drop p s)"
    by (rule length_takeWhile_le)
  then show ?thesis by (simp add: run_def)
qed

lemma rx_match_min_len:
  "(e, h) \<in> set (rx_match r s p g) \<Longrightarrow> p + min_len r \<le> e"
proof (induction r arbitrary: p g e h)
  case (Seq r1 r2)
  then obtain q k where q: "(q, k) \<in> set (rx_match r1 s p g)" and e: "(e, h) \<in> set (rx_match r2 s q k)"
    by auto
  from Seq.IH(1)[OF q] Seq.IH(2)[OF e] show ?case by simp
next
  case (Opt r)
  from Opt.prems Opt.IH[of e h p g] show ?case by auto
next
  case (Alt r1 r2)
  from Alt.prems Alt.IH(1)[of e h p g] Alt.IH(2)[of e h p g] show ?case by auto
next
  case (Grp n r)
  then obtain h' where "(e, h') \<in> set (rx_match r s p g)" by auto
  from Grp.IH[OF this] show ?case by simp
qed (auto split: if_splits)

lemma rx_match_mono: "(e, h) \<in> set (rx_match r s p g) \<Longrightarrow> p \<le> e"
  using rx_match_min_len by fastforce

lemma rx_match_bound:
  "(e, h) \<in> set (rx_match r s p g) \<Longrightarrow> p \<le> length s \<Longrightarrow> e \<le> length s"
proof (induction r arbitrary: p g e h)
  case (Str w)
  then show ?case by (auto simp: str_at_def split: if_splits)
next
  case (Star a)
  with run_le [of p a s] show ?case by auto
next
  case (Plus a)
  with run_le [of p a s] show ?case by auto
next
  case (Seq r1 r2)
  then obtain q k where q: "(q, k) \<in> set (rx_match r1 s p g)" and e: "(e, h) \<in> set (rx_match r2 s q k)"
    by auto
  from Seq.IH(1)[OF q Seq.prems(2)] have "q \<le> length s" .
  with Seq.IH(2)[OF e] show ?case .
qed (auto split: if_splits)

lemma rx_match_requires:
  "requires ws r \<Longrightarrow> (e, h) \<in> set (rx_match r s p g) \<Longrightarrow> \<exists>w\<in>set ws. \<exists>q. str_at w s q"
proof (induction r arbitrary: p g e h)
  case (Seq r1 r2)
  then obtain q k where q: "(q, k) \<in> set (rx_match r1 s p g)" and e: "(e, h) \<in> set (rx_match r2 s q k)"
    by auto
  from Seq.prems(1) have "requires ws r1 \<or> requires ws r2" by simp
  then show ?case
  proof
    assume "requires ws r1" from Seq.IH(1)[OF this q] show ?thesis .
  next
    assume "requires ws r2" from Seq.IH(2)[OF this e] show ?thesis .
  qed
qed (auto split: if_splits)

lemma finditer_from_Nil:
  "(\<And>p. rx_match r s p [] = []) \<Longrightarrow> finditer_from r s pos = []"
  by (induction r s pos rule: finditer_from.induct) (subst finditer_from.simps, simp)

lemma finditer_requires:
  assumes "requires ws r" and "\<And>w q. w \<in> set ws \<Longrightarrow> \<not> str_at w s q"
  shows "finditer r s = []"
proof -
  have "rx_match r s p [] = []" for p
  proof (cases "rx_match r s p []")
    case (Cons a list)
    then have "(fst a, snd a) \<in> set (rx_match r s p [])" by simp
    from rx_match_requires[OF assms(1) this] assms(2) show ?thesis by blast
  qed simp
  then show ?thesis by (simp add: finditer_def finditer_from_Nil)
qed

lemma finditer_from_range:
  "m \<in> set (finditer_from r s pos) \<Longrightarrow>
   pos \<le> m_start m \<and> m_start m + min_len r \<le> m_end m \<and> m_end m \<le> length s"
proof (induction r s pos arbitrary: m rule: finditer_from.induct)
  case (1 r s pos)
  show ?case
  proof (cases "length s < pos")
    case True
    with "1.prems" show ?thesis by (subst (asm) finditer_from.simps) simp
  next
    case le: False
    show ?thesis
    proof (cases "rx_match r s pos []")
      case Nil
      with le "1.prems" have "m \<in> set (finditer_from r s (pos + 1))"
        by (subst (asm) finditer_from.simps) simp
      from "1.IH"(1)[OF le Nil this] show ?thesis by simp
    next
      case (Cons a list)
      obtain e g where a: "a = (e, g)" by (cases a)
      have eg: "(e, g) \<in> set (rx_match r s pos [])" using Cons a by simp
      from rx_match_min_len[OF eg] have e1: "pos + min_len r \<le> e" .
      from rx_match_bound[OF eg] le have e2: "e \<le> length s" by simp
      from le Cons a "1.prems"
      have "m = \<lparr>m_start = pos, m_end = e, m_groups = g\<rparr> \<or>
            m \<in> set (finditer_from r s (if pos < e then e else pos + 1))"
        by (subst (asm) finditer_from.simps) simp
      then show ?thesis
      proof
        assume "m = \<lparr>m_start = pos, m_end = e, m_groups = g\<rparr>"
        with e1 e2 show ?thesis by simp
      next
        assume "m \<in> set (finditer_from r s (if pos < e then e else pos + 1))"
        from "1.IH"(2)[OF le Cons a[symmetric] this] e1 show ?thesis
          by (auto split: if_splits)
      qed
    qed
  qed
qed

lemma finditer_from_sorted:
  "sorted_wrt (\<lambda>m m'. m_end m \<le> m_start m' \<and> m_start m < m_start m') (finditer_from r s pos)"
proof (induction r s pos rule: finditer_from.induct)
  case (1 r s pos)
  show ?case
  proof (cases "length s < pos")
    case True
    then show ?thesis by (subst finditer_from.simps) simp
  next
    case le: False
    show ?thesis
    proof (cases "rx_match r s pos []")
      case Nil
      with le "1.IH"(1) show ?thesis by (subst finditer_from.simps) simp
    next
      case (Cons a list)
      obtain e g where a: "a = (e, g)" by (cases a)
      have eg: "(e, g) \<in> set (rx_match r s pos [])" using Cons a by simp
      from rx_match_mono[OF eg] have e1: "pos \<le> e" .
      let ?next = "if pos < e then e else pos + 1"
      have ih: "sorted_wrt (\<lambda>m m'. m_end m \<le> m_start m' \<and> m_start m < m_start m')
                  (finditer_from r s ?next)"
        using "1.IH"(2)[OF le Cons a[symmetric]] .
      have later: "\<forall>m\<in>set (finditer_from r s ?next). e \<le> m_start m \<and> pos < m_start m"
      proof
        fix m assume "m \<in> set (finditer_from r s ?next)"
        from finditer_from_range[OF this] e1 show "e \<le> m_start m \<and> pos < m_start m"
          by (auto split: if_splits)
      qed
      show ?thesis
        by (subst finditer_from.simps) (use le Cons a ih later in simp)
    qed
  qed
qed

section \<open>The passes as list comprehensions\<close>

lemma for_each_append:
  assumes "\<And>x st. x \<in> set xs \<Longrightarrow> body x st = Inr (st @ f x)"
  shows "for_each xs body st = Inr (st @ concat (map f xs))"
  using assms by (induction xs arbitrary: st) auto

lemma concat_map_single: "concat (map (\<lambda>x. [f x]) xs) = map f xs"
  by (induction xs) auto

lemma yield_tables_target:
  "(tb, a, b) \<in> set (yield_tables stmt ms) \<Longrightarrow>
   tb \<in> set TARGET_TABLES \<and> (\<exists>m\<in>set ms. a = m_start m \<and> b = m_end m)"
  by (induction ms) (auto split: option.splits if_splits)

lemma target_method_of:
  "tb \<in> set TARGET_TABLES \<Longrightarrow> \<exists>m. method_of tb = Inr m"
  by (auto simp: TARGET_TABLES_def method_of_def METHOD_MAP_def)

lemma target_suggestion:
  "tb \<in> set TARGET_TABLES \<Longrightarrow> \<exists>sug. suggestion_for_read tb = Inr sug"
  using target_method_of [of tb] by (auto simp: suggestion_for_read_def)

lemma read_body_eq:
  "read_body u raw src msg m fs =
     Inr (fs @ map (\<lambda>t. read_finding u raw src msg (m, t))
                   (find_tables_in_select (slice src (m_start m) (m_end m))))"
proof -
  let ?xs = "find_tables_in_select (slice src (m_start m) (m_end m))"
  have step: "(case x of (tb, tstart, tend) \<Rightarrow> \<lambda>fs.
          case method_of tb of
            Inl e \<Rightarrow> Inl e
          | Inr method \<Rightarrow>
              (case suggestion_for_read tb of
                 Inl e \<Rightarrow> Inl e
               | Inr sug \<Rightarrow>
                   Inr (fs @ [finding u ''DirectRead'' ''info'' (line_of_offset src (m_start m))
                                (msg tb method) sug (snippet_at raw (m_start m) (m_end m))]))) st
        = Inr (st @ [read_finding u raw src msg (m, x)])"
    if "x \<in> set ?xs" for x st
  proof -
    obtain tb a b where x: "x = (tb, a, b)" by (cases x)
    with that have "tb \<in> set TARGET_TABLES"
      using yield_tables_target by (auto simp: find_tables_in_select_def)
    with target_method_of target_suggestion
    obtain meth sug where "method_of tb = Inr meth" "suggestion_for_read tb = Inr sug" by blast
    then show ?thesis by (simp add: x read_finding_def)
  qed
  show ?thesis
    unfolding read_body_def
    by (subst for_each_append [where f = "\<lambda>t. [read_finding u raw src msg (m, t)]"])
       (use step in \<open>auto simp: concat_map_single\<close>)
qed

lemma read_pass_eq:
  "for_each (finditer r src) (read_body u raw src msg) st =
     Inr (st @ map (read_finding u raw src msg) (read_hits r src))"
  by (subst for_each_append
        [where f = "\<lambda>m. map (\<lambda>t. read_finding u raw src msg (m, t))
                            (find_tables_in_select (slice src (m_start m) (m_end m)))"])
     (simp_all add: read_body_eq read_hits_def map_concat comp_def)

lemma write_body_eq:
  "write_body u raw src m fs = Inr (fs @ map (write_finding u raw src) (write_hit src m))"
  by (simp add: write_body_def write_hit_def write_finding_def split: option.splits)

lemma write_pass_eq:
  "for_each (finditer WRITE_STMT_RE src) (write_body u raw src) st =
     Inr (st @ map (write_finding u raw src) (write_hits src))"
  by (subst for_each_append [where f = "\<lambda>m. map (write_finding u raw src) (write_hit src m)"])
     (simp_all add: write_body_eq write_hits_def map_concat comp_def)

lemma scan_unit_eq: "scan_unit u = Inr (scanned u)"
  by (simp add: scan_unit_def scanned_def findings_of_def raw_of_def read_pass_eq write_pass_eq
        Let_def)

lemma filter_concat_if:
  "concat (map (\<lambda>x. if P (f x) then [f x] else []) xs) = filter P (map f xs)"
  by (induction xs) auto

lemma scan_rule_array_eq:
  "scan_rule_array units = Inr (filter (\<lambda>r. rule628_findings r \<noteq> []) (map scanned units))"
proof -
  have "scan_rule_array units =
          Inr ([] @ concat (map (\<lambda>u. if rule628_findings (scanned u) \<noteq> [] then [scanned u] else [])
                                units))"
    unfolding scan_rule_array_def
    by (rule for_each_append) (simp add: scan_unit_eq)
  then show ?thesis
    by (simp add: filter_concat_if [where P = "\<lambda>r. rule628_findings r \<noteq> []" and f = scanned])
qed

section \<open>Hits come in textual order\<close>

lemma sorted_wrt_concat_map:
  assumes "sorted_wrt Q ms"
    and "\<And>m. m \<in> set ms \<Longrightarrow> sorted_wrt P (f m)"
    and "\<And>m m' x y. Q m m' \<Longrightarrow> m \<in> set ms \<Longrightarrow> m' \<in> set ms \<Longrightarrow>
            x \<in> set (f m) \<Longrightarrow> y \<in> set (f m') \<Longrightarrow> P x y"
  shows "sorted_wrt P (concat (map f ms))"
  using assms
proof (induction ms)
  case (Cons m ms)
  have "sorted_wrt P (concat (map f ms))"
    using Cons.prems by (intro Cons.IH) auto
  moreover have "sorted_wrt P (f m)" using Cons.prems(2) by simp
  moreover have "P x y" if "x \<in> set (f m)" "y \<in> set (concat (map f ms))" for x y
  proof -
    from that(2) obtain m' where m': "m' \<in> set ms" "y \<in> set (f m')" by auto
    with Cons.prems(1) have "Q m m'" by simp
    from Cons.prems(3)[OF this _ _ that(1) m'(2)] m'(1) show ?thesis by simp
  qed
  ultimately show ?case by (simp add: sorted_wrt_append)
qed simp

lemma finditer_sorted:
  "sorted_wrt (\<lambda>m m'. m_end m \<le> m_start m' \<and> m_start m < m_start m') (finditer r s)"
  by (simp add: finditer_def finditer_from_sorted)

lemma finditer_range:
  "m \<in> set (finditer r s) \<Longrightarrow> m_start m + min_len r \<le> m_end m \<and> m_end m \<le> length s"
  using finditer_from_range [of m r s 0] by (simp add: finditer_def)

lemma yield_tables_sorted:
  "sorted_wrt (\<lambda>m m'. m_start m < m_start m') ms \<Longrightarrow>
   sorted_wrt (\<lambda>t t'. fst (snd t) < fst (snd t')) (yield_tables stmt ms)"
proof (induction ms)
  case (Cons m ms)
  have later: "fst (snd t) \<in> m_start ` set ms" if "t \<in> set (yield_tables stmt ms)" for t
    using that yield_tables_target [of "fst t" "fst (snd t)" "snd (snd t)" stmt ms] by auto
  from Cons show ?case
    by (auto split: option.splits dest!: later)
qed simp

lemma find_tables_sorted:
  "sorted_wrt (\<lambda>t t'. fst (snd t) < fst (snd t')) (find_tables_in_select stmt)"
  unfolding find_tables_in_select_def
  by (rule yield_tables_sorted)
     (rule sorted_wrt_mono_rel [OF _ finditer_sorted], simp)

lemma min_len_FROM_OR_JOIN: "min_len FROM_OR_JOIN_TARGET_RE = 9"
  by (simp add: FROM_OR_JOIN_TARGET_RE_def TABLE_TOKEN_def TABLE_NAME_RE_def)

lemma find_tables_inside:
  "(tb, a, b) \<in> set (find_tables_in_select stmt) \<Longrightarrow> a < length stmt"
proof -
  assume "(tb, a, b) \<in> set (find_tables_in_select stmt)"
  then obtain m where "m \<in> set (finditer FROM_OR_JOIN_TARGET_RE stmt)" "a = m_start m"
    using yield_tables_target by (fastforce simp: find_tables_in_select_def)
  with finditer_range [of m FROM_OR_JOIN_TARGET_RE stmt] show ?thesis
    by (simp add: min_len_FROM_OR_JOIN)
qed

lemma read_hits_sorted: "sorted_wrt (<) (map read_offset (read_hits r src))"
proof -
  let ?f = "\<lambda>m. map (Pair m) (find_tables_in_select (slice src (m_start m) (m_end m)))"
  let ?P = "\<lambda>h h'. read_offset h < read_offset h'"
  have "sorted_wrt ?P (concat (map ?f (finditer r src)))"
  proof (rule sorted_wrt_concat_map [OF finditer_sorted])
    fix m
    show "sorted_wrt ?P (?f m)"
      using find_tables_sorted [of "slice src (m_start m) (m_end m)"]
      by (simp add: sorted_wrt_map read_offset_def case_prod_beta)
  next
    fix m m' :: rmatch and x y
    assume q: "m_end m \<le> m_start m' \<and> m_start m < m_start m'"
      and m: "m \<in> set (finditer r src)"
      and x: "x \<in> set (?f m)" and y: "y \<in> set (?f m')"
    from x obtain tb a b where x': "x = (m, tb, a, b)"
      and t: "(tb, a, b) \<in> set (find_tables_in_select (slice src (m_start m) (m_end m)))"
      by auto
    from y obtain tb' a' b' where y': "y = (m', tb', a', b')" by auto
    from finditer_range [OF m] have "m_end m \<le> length src" by simp
    with find_tables_inside [OF t] have "m_start m + a < m_end m"
      by (simp add: slice_def)
    with q show "read_offset x < read_offset y"
      by (simp add: x' y' read_offset_def)
  qed
  then show ?thesis by (simp add: sorted_wrt_map read_hits_def)
qed

lemma write_hits_sorted: "sorted_wrt (<) (map write_offset (write_hits src))"
proof -
  let ?P = "\<lambda>h h'. write_offset h < write_offset h'"
  have "sorted_wrt ?P (concat (map (write_hit src) (finditer WRITE_STMT_RE src)))"
  proof (rule sorted_wrt_concat_map [OF finditer_sorted])
    fix m
    show "sorted_wrt ?P (write_hit src m)"
      by (simp add: write_hit_def split: option.splits)
  next
    fix m m' :: rmatch and x y
    assume "m_end m \<le> m_start m' \<and> m_start m < m_start m'"
      and "x \<in> set (write_hit src m)" and "y \<in> set (write_hit src m')"
    then show "write_offset x < write_offset y"
      by (auto simp: write_hit_def write_offset_def split: option.splits if_splits)
  qed
  then show ?thesis by (simp add: sorted_wrt_map write_hits_def)
qed

section \<open>Only visible mentions are reported\<close>

lemma kob_same:
  "list_all2 kept_or_blank xs ys \<Longrightarrow> map lower ys = map lower w \<Longrightarrow>
   SP \<notin> set (map lower w) \<Longrightarrow> ys = xs"
proof (induction xs ys arbitrary: w rule: list_all2_induct)
  case (Cons x xs y ys)
  then obtain c cs where w: "w = c # cs" by (cases w) auto
  have "lower SP = SP" by (simp add: lower_Char)
  with Cons.prems Cons.hyps(1) w have "y = x"
    by (auto simp: kept_or_blank_def)
  moreover from Cons.IH [of cs] Cons.prems w have "ys = xs" by simp
  ultimately show ?case by simp
qed simp

lemma target_no_space: "w \<in> set TARGET_TABLES \<Longrightarrow> SP \<notin> set (map lower w)"
  by (auto simp: TARGET_TABLES_def lower_Char)

lemma str_at_sanitized:
  assumes "str_at w (rm_strings_and_comments raw) q" and "w \<in> set TARGET_TABLES"
  shows "visible_mention raw w q"
proof -
  let ?src = "rm_strings_and_comments raw"
  have "list_all2 kept_or_blank (take (length w) (drop q raw)) (take (length w) (drop q ?src))"
    by (intro list_all2_takeI list_all2_dropI kob_rm)
  moreover from assms(1) have "map lower (take (length w) (drop q ?src)) = map lower w"
    by (simp add: str_at_def)
  ultimately have same: "take (length w) (drop q ?src) = take (length w) (drop q raw)"
    using kob_same target_no_space [OF assms(2)] by blast
  with assms(1) show ?thesis
    by (simp add: visible_mention_def str_at_def slice_def length_rm_strings_and_comments)
qed

lemma str_at_slice: "str_at w (slice s a b) q \<Longrightarrow> w \<noteq> [] \<Longrightarrow> str_at w s (a + q)"
proof -
  assume h: "str_at w (slice s a b) q" and "w \<noteq> []"
  then have len: "q + length w \<le> b - a" "q + length w \<le> length s - a" "0 < length w"
    by (simp_all add: str_at_def slice_def)
  have "take (length w) (drop q (take (b - a) (drop a s))) = take (length w) (drop (a + q) s)"
    using len by (simp add: drop_take min_def add.commute)
  moreover from len have "a + q + length w \<le> length s" by linarith
  ultimately show ?thesis
    using h by (simp add: str_at_def slice_def)
qed

lemma no_mention_sanitized:
  assumes "no_visible_mention raw" and "w \<in> set TARGET_TABLES"
  shows "\<not> str_at w (rm_strings_and_comments raw) q"
proof
  assume s: "str_at w (rm_strings_and_comments raw) q"
  from assms(2) have "0 < length w" by (auto simp: TARGET_TABLES_def)
  moreover from s have "q + length w \<le> length raw"
    by (simp add: str_at_def length_rm_strings_and_comments)
  ultimately have "q < length raw" by linarith
  with assms str_at_sanitized [OF s assms(2)] show False
    by (auto simp: no_visible_mention_def list_all_iff)
qed

lemma requires_FROM_OR_JOIN: "requires TARGET_TABLES FROM_OR_JOIN_TARGET_RE"
  by (simp add: FROM_OR_JOIN_TARGET_RE_def TABLE_TOKEN_def TABLE_NAME_RE_def TARGET_TABLES_def)

lemma requires_WRITE: "requires TARGET_TABLES WRITE_STMT_RE"
  by (simp add: WRITE_STMT_RE_def TABLE_NAME_RE_def TARGET_TABLES_def)

lemma no_mention_read_hits:
  assumes "no_visible_mention raw"
  shows "read_hits r (rm_strings_and_comments raw) = []"
proof -
  let ?src = "rm_strings_and_comments raw"
  have "find_tables_in_select (slice ?src a b) = []" for a b
  proof -
    have "finditer FROM_OR_JOIN_TARGET_RE (slice ?src a b) = []"
    proof (rule finditer_requires [OF requires_FROM_OR_JOIN])
      fix w q assume w: "w \<in> set TARGET_TABLES"
      then have "w \<noteq> []" by (auto simp: TARGET_TABLES_def)
      with no_mention_sanitized [OF assms w] str_at_slice
      show "\<not> str_at w (slice ?src a b) q" by blast
    qed
    then show ?thesis by (simp add: find_tables_in_select_def)
  qed
  then show ?thesis by (simp add: read_hits_def)
qed

lemma no_mention_write_hits:
  assumes "no_visible_mention raw"
  shows "write_hits (rm_strings_and_comments raw) = []"
proof -
  have "finditer WRITE_STMT_RE (rm_strings_and_comments raw) = []"
    using no_mention_sanitized [OF assms]
    by (intro finditer_requires [OF requires_WRITE]) blast
  then show ?thesis by (simp add: write_hits_def)
qed

lemma no_mention_findings: "no_visible_mention (raw_of u) \<Longrightarrow> findings_of u = []"
  by (simp add: findings_of_def Let_def no_mention_read_hits no_mention_write_hits)

section \<open>Matching ignores case\<close>

lemma lower_class:
  "is_word (lower c) = is_word c" "is_space (lower c) = is_space c"
  "(lower c = CHR ''.'') = (c = CHR ''.'')" "lower (lower c) = lower c"
proof -
  obtain b0 b1 b2 b3 b4 b5 b6 b7 where c: "c = Char b0 b1 b2 b3 b4 b5 b6 b7" by (cases c)
  show "is_word (lower c) = is_word c"
    unfolding c
    by (cases b0; cases b1; cases b2; cases b3; cases b4; cases b5; cases b6; cases b7;
        simp add: lower_Char is_word_def)
  show "is_space (lower c) = is_space c"
    unfolding c
    by (cases b0; cases b1; cases b2; cases b3; cases b4; cases b5; cases b6; cases b7;
        simp add: lower_Char is_space_def)
  show "(lower c = CHR ''.'') = (c = CHR ''.'')"
    unfolding c
    by (cases b0; cases b1; cases b2; cases b3; cases b4; cases b5; cases b6; cases b7;
        simp add: lower_Char)
  show "lower (lower c) = lower c"
    unfolding c
    by (cases b0; cases b1; cases b2; cases b3; cases b4; cases b5; cases b6; cases b7;
        simp add: lower_Char)
qed

lemma cls_ok_lower: "cls_ok a (lower c) = cls_ok a c"
  by (cases a) (simp_all add: lower_class)

lemma run_lower:
  assumes "map lower s = map lower s'"
  shows "run a s p = run a s' p"
proof -
  have "length (takeWhile (cls_ok a) (drop p t)) =
        length (takeWhile (cls_ok a) (map lower (drop p t)))" for t
    by (simp add: takeWhile_map comp_def cls_ok_lower)
  moreover have "map lower (drop p s) = map lower (drop p s')"
    using assms by (metis drop_map)
  ultimately show ?thesis
    by (simp add: run_def)
qed

lemma nth_lower:
  assumes "map lower s = map lower s'" and "i < length s"
  shows "lower (s ! i) = lower (s' ! i)"
proof -
  from assms have "map lower s ! i = map lower s' ! i" by simp
  moreover from assms have "i < length s'" by (metis length_map)
  ultimately show ?thesis using assms(2) by simp
qed

lemma rx_match_lower:
  assumes "map lower s = map lower s'"
  shows "rx_match r s p g = rx_match r s' p g"
proof (induction r arbitrary: p g)
  case (Str w)
  from assms have len: "length s = length s'" by (metis length_map)
  have "map lower (take n (drop p s)) = map lower (take n (drop p s'))" for n
    using assms by (simp add: take_map [symmetric] drop_map [symmetric])
  with len show ?case by (simp add: str_at_def)
next
  case (Star a)
  show ?case by (simp add: run_lower [OF assms])
next
  case (Plus a)
  show ?case by (simp add: run_lower [OF assms])
next
  case Bnd
  from assms have len: "length s = length s'" by (metis length_map)
  have w: "is_word (s ! i) = is_word (s' ! i)" if "i < length s" for i
    using nth_lower [OF assms that] by (metis lower_class(1))
  have "word_before s p = word_before s' p"
    using len w [of "p - 1"] by (auto simp: word_before_def)
  moreover have "word_at s p = word_at s' p"
    using len w [of p] by (auto simp: word_at_def)
  ultimately show ?case by simp
next
  case (Seq r1 r2)
  have "rx_match r2 s = rx_match r2 s'"
    by (intro ext) (rule Seq.IH)
  with Seq.IH(1) show ?case by simp
qed simp_all

lemma finditer_from_lower_imp:
  "map lower s = map lower s' \<longrightarrow> finditer_from r s pos = finditer_from r s' pos"
proof (induction r s pos rule: finditer_from.induct)
  case (1 r s pos)
  show ?case
  proof
  assume prems: "map lower s = map lower s'"
  from prems have len: "length s = length s'" by (metis length_map)
  note m = rx_match_lower [OF prems, of r pos "[]"]
  show "finditer_from r s pos = finditer_from r s' pos"
  proof (cases "length s < pos")
    case True
    then have "finditer_from r s pos = []"
      by (subst finditer_from.simps) simp
    moreover from True len have "finditer_from r s' pos = []"
      by (subst finditer_from.simps) simp
    ultimately show ?thesis by simp
  next
    case le: False
    show ?thesis
    proof (cases "rx_match r s pos []")
      case Nil
      with le have "finditer_from r s pos = finditer_from r s (pos + 1)"
        by (subst finditer_from.simps) simp
      moreover from Nil m le len have "finditer_from r s' pos = finditer_from r s' (pos + 1)"
        by (subst finditer_from.simps) simp
      moreover from "1.IH"(1) [OF le Nil] prems
      have "finditer_from r s (pos + 1) = finditer_from r s' (pos + 1)" by simp
      ultimately show ?thesis by simp
    next
      case (Cons a list)
      obtain e g where a: "a = (e, g)" by (cases a)
      let ?n = "if pos < e then e else pos + 1"
      from m Cons a have ms': "rx_match r s' pos [] = (e, g) # list" by simp
      from Cons a have ms: "rx_match r s pos [] = (e, g) # list" by simp
      from le ms have "finditer_from r s pos =
          \<lparr>m_start = pos, m_end = e, m_groups = g\<rparr> # finditer_from r s ?n"
        by (subst finditer_from.simps) simp
      moreover from le len ms' have "finditer_from r s' pos =
          \<lparr>m_start = pos, m_end = e, m_groups = g\<rparr> # finditer_from r s' ?n"
        by (subst finditer_from.simps) simp
      moreover from "1.IH"(2) [OF le Cons a [symmetric]] prems
      have "finditer_from r s ?n = finditer_from r s' ?n" by simp
      ultimately show ?thesis by simp
    qed
  qed
  qed
qed

lemma finditer_lower: "map lower s = map lower s' \<Longrightarrow> finditer r s = finditer r s'"
  using finditer_from_lower_imp [of s s' r 0] by (simp add: finditer_def)

lemma canon_group_lower:
  assumes "map lower s = map lower s'"
  shows "canon (group s m n) = canon (group s' m n)"
proof (cases "map_of (m_groups m) n")
  case (Some ab)
  obtain a b where ab: "ab = (a, b)" by (cases ab)
  have "take (b - a) (drop a (map lower s)) = take (b - a) (drop a (map lower s'))"
    using assms by simp
  then have eq: "map lower (slice s a b) = map lower (slice s' a b)"
    by (simp add: slice_def take_map drop_map)
  show ?thesis
  proof (cases "slice s a b")
    case Nil
    with eq have "slice s' a b = []" by simp
    with Nil Some ab show ?thesis by (simp add: group_def)
  next
    case (Cons x xs)
    with eq obtain y ys where c': "slice s' a b = y # ys" by (cases "slice s' a b") auto
    with eq Cons Some ab show ?thesis by (simp add: group_def)
  qed
qed (simp add: group_def)

lemma yield_tables_lower:
  "map lower s = map lower s' \<Longrightarrow> yield_tables s ms = yield_tables s' ms"
  by (induction ms) (simp_all add: canon_group_lower [of s s'] split: option.splits)

lemma find_tables_in_select_lower:
  "map lower s = map lower s' \<Longrightarrow> find_tables_in_select s = find_tables_in_select s'"
  by (simp add: find_tables_in_select_def finditer_lower [of s s'] yield_tables_lower [of s s'])


section \<open>Scans without findings\<close>

lemma scan_unit_no_mention:
  "no_visible_mention (raw_of u) \<Longrightarrow>
   scan_unit u =
     Inr \<lparr>pgm_name = pgm_name u, inc_name = inc_name u, type = type u, name = name u,
          start_line = start_line u, end_line = end_line u, code = code u,
          rule628_findings = []\<rparr>"
  by (simp add: scan_unit_eq scanned_def no_mention_findings)

lemma scan_unit_no_statement:
  assumes "rm_strings_and_comments (raw_of u) = src"
    and "finditer STMT_SELECT_RE src = []"
    and "finditer STMT_OPEN_CURSOR_RE src = []"
    and "finditer WRITE_STMT_RE src = []"
  shows "scan_unit u =
     Inr \<lparr>pgm_name = pgm_name u, inc_name = inc_name u, type = type u, name = name u,
          start_line = start_line u, end_line = end_line u, code = code u,
          rule628_findings = []\<rparr>"
  using assms by (simp add: scan_unit_def raw_of_def)

lemma scan_unit_no_code:
  "scan_unit (u\<lparr>code := None\<rparr>) =
     Inr \<lparr>pgm_name = pgm_name u, inc_name = inc_name u, type = type u, name = name u,
          start_line = start_line u, end_line = end_line u, code = None,
          rule628_findings = []\<rparr>"
proof -
  have "rm_strings_and_comments (raw_of (u\<lparr>code := None\<rparr>)) = []"
    by (simp add: raw_of_def san_eval)
  moreover have "finditer STMT_SELECT_RE [] = []" by (simp add: rx_eval)
  moreover have "finditer STMT_OPEN_CURSOR_RE [] = []" by (simp add: rx_eval)
  moreover have "finditer WRITE_STMT_RE [] = []" by (simp add: rx_eval)
  ultimately show ?thesis
    using scan_unit_no_statement [of "u\<lparr>code := None\<rparr>" "[]"] by simp
qed

section \<open>String literals and comments, textually\<close>

text \<open>
  The sanitizer blanks the characters that the marking marks, with the lines of
  \<^verbatim>\<open>str.splitlines\<close> (\<open>rm_strings_and_comments_marks\<close>). So a text whose mentions of the
  target tables are all hidden has no visible mention, and its scan has no findings.
\<close>

lemma length_mark_chars: "length (mark_chars b cs) = length cs"
  by (induction b cs rule: mark_chars.induct) auto

lemma length_mark_line: "length (mark_line ln) = length ln"
  by (simp add: mark_line_def length_mark_chars)

lemma blank_Nil [simp]: "blank [] [] = []"
  by (simp add: blank_def)

lemma blank_Cons [simp]: "blank (m # ms) (c # cs) = (if m then SP else c) # blank ms cs"
  by (simp add: blank_def)

lemma blank_append:
  "length ms = length xs \<Longrightarrow> blank (ms @ ns) (xs @ ys) = blank ms xs @ blank ns ys"
  by (simp add: blank_def)

lemma blank_all: "blank (replicate (length xs) True) xs = replicate (length xs) SP"
  by (induction xs) auto

lemma blank_fold_eq:
  "i \<le> length buf \<Longrightarrow>
   fold (\<lambda>j b. b[j := SP]) [i..<length buf] buf = take i buf @ replicate (length buf - i) SP"
proof (induction "length buf - i" arbitrary: i buf)
  case 0
  then show ?case by simp
next
  case (Suc n)
  then have i: "i < length buf" by simp
  have "fold (\<lambda>j b. b[j := SP]) [i..<length buf] buf =
        fold (\<lambda>j b. b[j := SP]) [Suc i..<length (buf[i := SP])] (buf[i := SP])"
    using i by (simp add: upt_conv_Cons)
  also have "\<dots> = take (Suc i) (buf[i := SP]) @ replicate (length (buf[i := SP]) - Suc i) SP"
    using Suc.hyps(2) i by (intro Suc.hyps(1)) simp_all
  also have "\<dots> = take i buf @ replicate (length buf - i) SP"
  proof -
    from i have "length buf - i = Suc (length buf - Suc i)" by simp
    with i show ?thesis by (simp add: take_Suc_conv_app_nth)
  qed
  finally show ?case .
qed

lemma blank_to_end_eq:
  "i \<le> length buf \<Longrightarrow> blank_to_end buf i = take i buf @ replicate (length buf - i) SP"
  by (simp add: blank_to_end_def blank_fold_eq)

lemma scan_line_marks:
  "i \<le> length buf \<Longrightarrow>
   scan_line buf in_str i = take i buf @ blank (mark_chars in_str (drop i buf)) (drop i buf)"
proof (induction buf in_str i rule: scan_line.induct)
  case (1 buf in_str i)
  show ?case
  proof (cases "i < length buf")
    case False
    with "1.prems" show ?thesis by (simp add: scan_line.simps [of buf])
  next
    case i: True
    then obtain c cs where d: "drop i buf = c # cs" and c: "c = buf ! i" and cs: "cs = drop (Suc i) buf"
      using Cons_nth_drop_Suc [OF i] by metis
    have t: "take (Suc i) buf = take i buf @ [c]"
      using i c by (simp add: take_Suc_conv_app_nth)
    show ?thesis
    proof (cases "buf ! i = SQ")
      case q: True
      show ?thesis
      proof (cases in_str)
        case s: True
        show ?thesis
        proof (cases "i + 1 < length buf \<and> buf ! (i + 1) = SQ")
          case n: True
          then obtain ds where d2: "cs = SQ # ds" and ds: "ds = drop (i + 2) buf"
            using Cons_nth_drop_Suc [of "Suc i" buf] cs by (metis Suc_eq_plus1 add_2_eq_Suc')
          have t2: "take (i + 2) buf = take i buf @ [SQ, SQ]"
            using n q i by (simp add: take_Suc_conv_app_nth)
          from n have "i + 2 \<le> length buf" by simp
          from "1.IH"(1) [OF i q s n this] i q s n t2 show ?thesis
            by (simp add: scan_line.simps [of buf _ i] d d2 c ds)
        next
          case n: False
          have "Suc i \<le> length buf" using i by simp
          with "1.IH"(2) [OF i q s n] have ih:
            "scan_line buf False (i + 1) =
               take (Suc i) buf @ blank (mark_chars False cs) cs"
            by (simp add: cs)
          have "mark_chars True (c # cs) = False # mark_chars False cs"
          proof (cases cs)
            case Nil
            with q c show ?thesis by simp
          next
            case (Cons e es)
            with cs have de: "drop (Suc i) buf = e # es" by simp
            then have "Suc i < length buf"
              by (cases "Suc i < length buf") simp_all
            moreover from de have "e = buf ! Suc i"
              by (rule nth_via_drop [symmetric])
            ultimately have "Suc i < length buf" "e = buf ! Suc i" .
            with n have "e \<noteq> SQ" by simp
            with Cons q c show ?thesis by simp
          qed
          with ih i q s n show ?thesis
            by (auto simp: scan_line.simps [of buf _ i] d t q c [symmetric])
        qed
      next
        case s: False
        have "Suc i \<le> length buf" using i by simp
        with "1.IH"(3) [OF i q s] i q s show ?thesis
          by (simp add: scan_line.simps [of buf _ i] d t cs c [symmetric])
      qed
    next
      case q: False
      show ?thesis
      proof (cases "buf ! i = DQ \<and> \<not> in_str")
        case c1: True
        have "length cs = length buf - Suc i" by (simp add: cs)
        moreover have "blank (replicate (Suc (length cs)) True) (c # cs) = replicate (Suc (length cs)) SP"
          using blank_all [of "c # cs"] by simp
        ultimately show ?thesis
          using i q c1 "1.prems"
          by (simp add: scan_line.simps [of buf _ i] d c [symmetric] blank_to_end_eq Suc_diff_Suc)
      next
        case c1: False
        show ?thesis
        proof (cases in_str)
          case s: True
          have len: "Suc i \<le> length (buf[i := SP])" using i by simp
          have "mark_chars True (c # cs) = True # mark_chars True cs"
            using q c by (cases cs) simp_all
          moreover have "take (Suc i) (buf[i := SP]) = take i buf @ [SP]"
            using i by (simp add: take_Suc_conv_app_nth)
          moreover have "drop (Suc i) (buf[i := SP]) = cs"
            by (simp add: cs)
          ultimately show ?thesis
            using "1.IH"(4) [OF i q c1 s] len i q c1 s
            by (simp add: scan_line.simps [of buf _ i] d)
        next
          case s: False
          have "Suc i \<le> length buf" using i by simp
          moreover from c1 s have "buf ! i \<noteq> DQ" by simp
          ultimately show ?thesis
            using "1.IH"(5) [OF i q c1 s] i q c1 s
            by (simp add: scan_line.simps [of buf _ i] d t cs c [symmetric])
        qed
      qed
    qed
  qed
qed

lemma sanitize_line_marks: "sanitize_line ln = blank (mark_line ln) ln"
  using scan_line_marks [of 0 ln False]
  by (simp add: sanitize_line_def mark_line_def blank_all)

lemma concat_marks:
  "concat (map sanitize_line ls) = blank (concat (map mark_line ls)) (concat ls)"
  by (induction ls) (simp_all add: blank_append length_mark_line sanitize_line_marks)

lemma rm_strings_and_comments_marks:
  "rm_strings_and_comments raw = blank (marks splitlines raw) raw"
  using concat_marks [of "splitlines raw"]
  by (simp add: rm_strings_and_comments_def marks_def concat_splitlines)

lemma length_marks_splitlines: "length (marks splitlines raw) = length raw"
proof -
  have "length (concat (map mark_line ls)) = length (concat ls)" for ls
    by (induction ls) (simp_all add: length_mark_line)
  from this [of "splitlines raw"] show ?thesis
    by (simp add: marks_def concat_splitlines)
qed

lemma blank_nth:
  "length ms = length xs \<Longrightarrow> j < length xs \<Longrightarrow> blank ms xs ! j = (if ms ! j then SP else xs ! j)"
  by (simp add: blank_def)

lemma hidden_not_visible:
  assumes "mentions_hidden splitlines raw"
  shows "no_visible_mention raw"
proof -
  have "\<not> visible_mention raw w p" if w: "w \<in> set TARGET_TABLES" and p: "p < length raw" for w p
  proof
    assume v: "visible_mention raw w p"
    then have s: "str_at w raw p"
      and eq: "slice (rm_strings_and_comments raw) p (p + length w) = slice raw p (p + length w)"
      by (simp_all add: visible_mention_def)
    from w have w0: "0 < length w" "lower (w ! 0) \<noteq> SP"
      by (auto simp: TARGET_TABLES_def lower_Char)
    from assms w p s have "list_all (\<lambda>j. marks splitlines raw ! j) [p..<p + length w]"
      by (auto simp: mentions_hidden_def list_all_iff)
    with w0 have m: "marks splitlines raw ! p" by (simp add: list_all_iff)
    from m p have "rm_strings_and_comments raw ! p = SP"
      by (simp add: rm_strings_and_comments_marks blank_nth length_marks_splitlines)
    moreover from eq w0 p have "rm_strings_and_comments raw ! p = raw ! p"
    proof -
      from eq have "slice (rm_strings_and_comments raw) p (p + length w) ! 0 =
                    slice raw p (p + length w) ! 0" by simp
      with w0 p show ?thesis
        by (simp add: slice_def length_rm_strings_and_comments)
    qed
    ultimately have "raw ! p = SP" by simp
    moreover from s w0 have "lower (raw ! p) = lower (w ! 0)"
    proof -
      from s have "map lower (take (length w) (drop p raw)) ! 0 = map lower w ! 0"
        by (simp add: str_at_def)
      with w0 p show ?thesis by simp
    qed
    ultimately show False using w0 by (simp add: lower_Char)
  qed
  then show ?thesis
    by (simp add: no_visible_mention_def list_all_iff)
qed

lemmas hidden_eval =
  mentions_hidden_def marks_def mark_line_def startswith_star_def lines_nl_def splitlines_def
  is_linebreak_def raw_of_def TARGET_TABLES_def str_at_def lower_Char Let_def

lemma scan_unit_hidden:
  "mentions_hidden splitlines (raw_of u) \<Longrightarrow>
   scan_unit u =
     Inr \<lparr>pgm_name = pgm_name u, inc_name = inc_name u, type = type u, name = name u,
          start_line = start_line u, end_line = end_line u, code = code u,
          rule628_findings = []\<rparr>"
  by (rule scan_unit_no_mention) (rule hidden_not_visible)

section \<open>A scan with one write\<close>

lemma scan_unit_delete:
  "scan_unit (u\<lparr>code := Some ''DELETE FROM t882g WHERE bukrs = lv_bukrs.''\<rparr>) =
     Inr \<lparr>pgm_name = pgm_name u, inc_name = inc_name u, type = type u, name = name u,
          start_line = start_line u, end_line = end_line u,
          code = Some ''DELETE FROM t882g WHERE bukrs = lv_bukrs.'',
          rule628_findings =
            [\<lparr>pgm_name = pgm_name u, inc_name = inc_name u, type = type u, name = name u,
              start_line = start_line u, end_line = end_line u,
              issue_type = ''DisallowedWrite'', severity = ''warning'', line = 1,
              message = ''Disallowed write to T882G detected. Avoid DML on obsolete tables.'',
              suggestion =
                ''Direct writes to T882G are disallowed in S/4HANA. '' @
                ''These tables are obsolete customizing; redesign to use the supported '' @
                ''configuration/APIs and remove the DML.'',
              snippet = ''DELETE FROM t882g WHERE bukrs = lv_bukrs.''\<rparr>]\<rparr>"
proof -
  let ?raw = "''DELETE FROM t882g WHERE bukrs = lv_bukrs.''"
  have src: "rm_strings_and_comments ?raw = ?raw"
    by (simp add: san_eval)
  have sel: "finditer STMT_SELECT_RE ?raw = []"
    by (simp add: rx_eval)
  have cur: "finditer STMT_OPEN_CURSOR_RE ?raw = []"
    by (simp add: rx_eval)
  have wr: "finditer WRITE_STMT_RE ?raw =
              [\<lparr>m_start = 0, m_end = 41, m_groups = [(''table2'', 12, 17)]\<rparr>]"
    by (simp add: rx_eval)
  from src sel cur wr show ?thesis
    by (simp add: scan_unit_def write_body_def tb_eval out_eval Let_def)
qed

section \<open>The claims\<close>

text \<open>
  C1. The claim: the sanitizer's output has the length of its input and newlines at the same
  offsets, and a line starting with \<^verbatim>\<open>*\<close> is blanked except for its terminator. The code
  keeps the length (\<open>length_rm_strings_and_comments\<close>) but blanks the terminator along
  with the line in each of its three blanking paths: the full-line comment, the inline
  comment and the unterminated string literal. The theorem evaluates the sanitizer on one
  two-line input per path; the newline at offset 3 comes out as a space.
\<close>

theorem C1_terminator_blanked:
  "rm_strings_and_comments (''* c'' @ [NL] @ ''x'') = ''    x'' \<and>
   rm_strings_and_comments ([CHR ''a'', SP, DQ, NL] @ ''x'') = ''a   x'' \<and>
   rm_strings_and_comments ([CHR ''a'', SQ, CHR ''b'', NL] @ ''x'') = [CHR ''a'', SQ] @ ''  x'' \<and>
   (''* c'' @ [NL] @ ''x'') ! 3 = NL"
  by (simp add: san_eval)

text \<open>
  C2. The claim: a finding's \<open>line\<close> is the number of newlines of the raw text before the
  statement's start offset, plus one. The code counts the newlines of the sanitized text
  (\<^verbatim>\<open>line_of_offset(src, s0)\<close>), in which the terminator of a comment line is blanked (the
  defect of C1). For a \<^verbatim>\<open>SELECT\<close> on line 2, after a comment line, the statement starts at
  offset 4 of the raw text, behind one newline, and the finding says line 1.
\<close>

theorem C2_line_counts_sanitized_text:
  "scan_unit (u\<lparr>code := Some (''* c'' @ [NL] @ ''SELECT * FROM t881.'')\<rparr>) =
     Inr \<lparr>pgm_name = pgm_name u, inc_name = inc_name u, type = type u, name = name u,
          start_line = start_line u, end_line = end_line u,
          code = Some (''* c'' @ [NL] @ ''SELECT * FROM t881.''),
          rule628_findings =
            [finding u ''DirectRead'' ''info'' 1
               (msg_select ''t881'' ''cl_fins_acdoc_util=>get_t881_emu'')
               (''Replace direct read of T881 with cl_fins_acdoc_util=>get_t881_emu.'' @
                [NL, NL] @ example_t881)
               (''* c'' @ [BSL, CHR ''n''] @ ''SELECT * FROM t881.'')]\<rparr> \<and>
   slice (''* c'' @ [NL] @ ''SELECT * FROM t881.'') 4 23 = ''SELECT * FROM t881.'' \<and>
   line_of_offset (''* c'' @ [NL] @ ''SELECT * FROM t881.'') 4 = 2"
proof -
  let ?raw = "''* c'' @ [NL] @ ''SELECT * FROM t881.''"
  let ?src = "''    SELECT * FROM t881.''"
  have src: "rm_strings_and_comments ?raw = ?src"
    by (simp add: san_eval)
  have sel: "finditer STMT_SELECT_RE ?src = [\<lparr>m_start = 4, m_end = 23, m_groups = []\<rparr>]"
    by (simp add: rx_eval)
  have cur: "finditer STMT_OPEN_CURSOR_RE ?src = []"
    by (simp add: rx_eval)
  have wr: "finditer WRITE_STMT_RE ?src = []"
    by (simp add: rx_eval)
  have tb: "find_tables_in_select ''SELECT * FROM t881.'' = [(''t881'', 9, 18)]"
    by (simp add: tb_eval rx_eval)
  have "slice ?src 4 23 = ''SELECT * FROM t881.''"
    by (simp add: slice_def)
  with src sel cur wr tb show ?thesis
    by (simp add: scan_unit_def read_body_def out_eval Let_def)
qed

text \<open>
  C3. The claim: sanitizing sanitized text changes nothing. The terminator blanked in the
  first pass (the defect of C1) joins two lines, and the second pass reads the joined line
  anew: an opening quote left at the end of line 1 now blanks what was line 2.
\<close>

theorem C3_not_idempotent_at_joined_lines:
  "rm_strings_and_comments ([SQ, NL] @ ''abc'') = [SQ, SP] @ ''abc'' \<and>
   rm_strings_and_comments (rm_strings_and_comments ([SQ, NL] @ ''abc'')) = [SQ] @ ''    ''"
  by (simp add: san_eval)

text \<open>
  C4. The claim: a unit whose code mentions a target table only inside a string literal,
  after an inline comment marker or on a line starting with \<^verbatim>\<open>*\<close> has no findings. The
  condition is read from the text (\<open>mentions_hidden\<close>): every occurrence of a target table
  name lies wholly inside a literal or a comment, which end with their line at the latest.
  When a line ends where \<^verbatim>\<open>str.splitlines\<close> ends it, \<^verbatim>\<open>scan_unit\<close> returns the unit
  with an empty findings list; the two inputs of the specification, the comment line
  \<^verbatim>\<open>* SELECT * FROM t881.\<close> and the literal \<^verbatim>\<open>... VALUE 'SELECT FROM T881'.\<close>, are
  instances.
\<close>

theorem C4_suppressed_in_strings_and_comments:
  "(mentions_hidden splitlines (raw_of u) \<longrightarrow>
      scan_unit u =
        Inr \<lparr>pgm_name = pgm_name u, inc_name = inc_name u, type = type u, name = name u,
             start_line = start_line u, end_line = end_line u, code = code u,
             rule628_findings = []\<rparr>) \<and>
   scan_unit (u\<lparr>code := Some ''* SELECT * FROM t881.''\<rparr>) =
     Inr \<lparr>pgm_name = pgm_name u, inc_name = inc_name u, type = type u, name = name u,
          start_line = start_line u, end_line = end_line u,
          code = Some ''* SELECT * FROM t881.'', rule628_findings = []\<rparr> \<and>
   scan_unit (u\<lparr>code := Some (''... VALUE '' @ [SQ] @ ''SELECT FROM T881'' @ [SQ] @ ''.'')\<rparr>) =
     Inr \<lparr>pgm_name = pgm_name u, inc_name = inc_name u, type = type u, name = name u,
          start_line = start_line u, end_line = end_line u,
          code = Some (''... VALUE '' @ [SQ] @ ''SELECT FROM T881'' @ [SQ] @ ''.''), rule628_findings = []\<rparr>"
proof (intro conjI impI)
  assume "mentions_hidden splitlines (raw_of u)"
  then show "scan_unit u =
        Inr \<lparr>pgm_name = pgm_name u, inc_name = inc_name u, type = type u, name = name u,
             start_line = start_line u, end_line = end_line u, code = code u,
             rule628_findings = []\<rparr>"
    by (rule scan_unit_hidden)
next
  have "mentions_hidden splitlines (raw_of (u\<lparr>code := Some ''* SELECT * FROM t881.''\<rparr>))"
    by (simp add: hidden_eval)
  from scan_unit_hidden [OF this]
  show "scan_unit (u\<lparr>code := Some ''* SELECT * FROM t881.''\<rparr>) =
     Inr \<lparr>pgm_name = pgm_name u, inc_name = inc_name u, type = type u, name = name u,
          start_line = start_line u, end_line = end_line u,
          code = Some ''* SELECT * FROM t881.'', rule628_findings = []\<rparr>"
    by simp
next
  have "mentions_hidden splitlines (raw_of (u\<lparr>code := Some (''... VALUE '' @ [SQ] @ ''SELECT FROM T881'' @ [SQ] @ ''.'')\<rparr>))"
    by (simp add: hidden_eval)
  from scan_unit_hidden [OF this]
  show "scan_unit (u\<lparr>code := Some (''... VALUE '' @ [SQ] @ ''SELECT FROM T881'' @ [SQ] @ ''.'')\<rparr>) =
     Inr \<lparr>pgm_name = pgm_name u, inc_name = inc_name u, type = type u, name = name u,
          start_line = start_line u, end_line = end_line u,
          code = Some (''... VALUE '' @ [SQ] @ ''SELECT FROM T881'' @ [SQ] @ ''.''), rule628_findings = []\<rparr>"
    by simp
qed

text \<open>
  C4, an instance with the hypothesis proved: a \<^verbatim>\<open>DELETE\<close> on \<^verbatim>\<open>t882g\<close> after an inline
  comment marker.
\<close>

theorem C4_witness:
  "mentions_hidden splitlines (raw_of (demo_unit ([DQ] @ '' old: DELETE FROM t882g.''))) \<and>
   scan_unit (demo_unit ([DQ] @ '' old: DELETE FROM t882g.'')) =
     Inr \<lparr>pgm_name = ''ZDEMO'', inc_name = ''ZDEMO_TOP'', type = ''PROG'', name = Some ''ZDEMO'',
          start_line = Some 1, end_line = Some 10,
          code = Some ([DQ] @ '' old: DELETE FROM t882g.''), rule628_findings = []\<rparr>"
proof -
  have h: "mentions_hidden splitlines (raw_of (demo_unit ([DQ] @ '' old: DELETE FROM t882g.'')))"
    by (simp add: hidden_eval demo_unit_def)
  with C4_suppressed_in_strings_and_comments [of "demo_unit ([DQ] @ '' old: DELETE FROM t882g.'')"]
  show ?thesis by (simp add: demo_unit_def)
qed

text \<open>
  C4 as stated, with lines that end at newlines only, fails. In
  \<^verbatim>\<open>x = 'a\x0cSELECT * FROM t881.'.\<close> the only mention of \<^verbatim>\<open>t881\<close> stands between the two
  quotes of one line, and in \<^verbatim>\<open>DATA x. " old\rDELETE FROM t882g.\<close> the only mention of
  \<^verbatim>\<open>t882g\<close> stands after the comment marker of its line; the sanitizer starts a new line
  after the form feed and after the carriage return, and each unit gets a finding.
\<close>

theorem C4_counterexample:
  "mentions_hidden lines_nl (''x = '' @ [SQ] @ ''a'' @ [CHR 0x0C] @ ''SELECT * FROM t881.'' @ [SQ] @ ''.'') \<and>
   scan_unit (demo_unit (''x = '' @ [SQ] @ ''a'' @ [CHR 0x0C] @ ''SELECT * FROM t881.'' @ [SQ] @ ''.'')) =
     Inr \<lparr>pgm_name = ''ZDEMO'', inc_name = ''ZDEMO_TOP'', type = ''PROG'', name = Some ''ZDEMO'',
          start_line = Some 1, end_line = Some 10,
          code = Some (''x = '' @ [SQ] @ ''a'' @ [CHR 0x0C] @ ''SELECT * FROM t881.'' @ [SQ] @ ''.''), rule628_findings = 
            [finding (demo_unit (''x = '' @ [SQ] @ ''a'' @ [CHR 0x0C] @ ''SELECT * FROM t881.'' @ [SQ] @ ''.'')) ''DirectRead'' ''info'' 1
               (msg_select ''t881'' ''cl_fins_acdoc_util=>get_t881_emu'')
               (''Replace direct read of T881 with cl_fins_acdoc_util=>get_t881_emu.'' @
                [NL, NL] @ example_t881)
               (''x = '' @ [SQ] @ ''a'' @ [CHR 0x0C] @ ''SELECT * FROM t881.'' @ [SQ] @ ''.'')]\<rparr> \<and>
   mentions_hidden lines_nl (''DATA x. '' @ [DQ] @ '' old'' @ [CR] @ ''DELETE FROM t882g.'') \<and>
   scan_unit (demo_unit (''DATA x. '' @ [DQ] @ '' old'' @ [CR] @ ''DELETE FROM t882g.'')) =
     Inr \<lparr>pgm_name = ''ZDEMO'', inc_name = ''ZDEMO_TOP'', type = ''PROG'', name = Some ''ZDEMO'',
          start_line = Some 1, end_line = Some 10,
          code = Some (''DATA x. '' @ [DQ] @ '' old'' @ [CR] @ ''DELETE FROM t882g.''), rule628_findings = 
            [finding (demo_unit (''DATA x. '' @ [DQ] @ '' old'' @ [CR] @ ''DELETE FROM t882g.'')) ''DisallowedWrite'' ''warning'' 1
               (msg_write ''t882g'') (suggestion_for_write ''t882g'')
               (''DATA x. '' @ [DQ] @ '' old'' @ [CR] @ ''DELETE FROM t882g.'')]\<rparr>"
proof (intro conjI)
  show "mentions_hidden lines_nl (''x = '' @ [SQ] @ ''a'' @ [CHR 0x0C] @ ''SELECT * FROM t881.'' @ [SQ] @ ''.'')"
    by (simp add: hidden_eval)
  show "mentions_hidden lines_nl (''DATA x. '' @ [DQ] @ '' old'' @ [CR] @ ''DELETE FROM t882g.'')"
    by (simp add: hidden_eval)
next
  let ?raw = "''x = '' @ [SQ] @ ''a'' @ [CHR 0x0C] @ ''SELECT * FROM t881.'' @ [SQ] @ ''.''"
  let ?src = "''x = '' @ [SQ] @ ''  SELECT * FROM t881.'' @ [SQ] @ '' ''"
  have src: "rm_strings_and_comments ?raw = ?src"
    by (simp add: san_eval)
  have sel: "finditer STMT_SELECT_RE ?src = [\<lparr>m_start = 7, m_end = 26, m_groups = []\<rparr>]"
    by (simp add: rx_eval)
  have cur: "finditer STMT_OPEN_CURSOR_RE ?src = []"
    by (simp add: rx_eval)
  have wr: "finditer WRITE_STMT_RE ?src = []"
    by (simp add: rx_eval)
  have tb: "find_tables_in_select ''SELECT * FROM t881.'' = [(''t881'', 9, 18)]"
    by (simp add: tb_eval rx_eval)
  have "slice ?src 7 26 = ''SELECT * FROM t881.''"
    by (simp add: slice_def)
  with src sel cur wr tb
  show "scan_unit (demo_unit ?raw) =
     Inr \<lparr>pgm_name = ''ZDEMO'', inc_name = ''ZDEMO_TOP'', type = ''PROG'', name = Some ''ZDEMO'',
          start_line = Some 1, end_line = Some 10,
          code = Some (''x = '' @ [SQ] @ ''a'' @ [CHR 0x0C] @ ''SELECT * FROM t881.'' @ [SQ] @ ''.''), rule628_findings = 
            [finding (demo_unit (''x = '' @ [SQ] @ ''a'' @ [CHR 0x0C] @ ''SELECT * FROM t881.'' @ [SQ] @ ''.'')) ''DirectRead'' ''info'' 1
               (msg_select ''t881'' ''cl_fins_acdoc_util=>get_t881_emu'')
               (''Replace direct read of T881 with cl_fins_acdoc_util=>get_t881_emu.'' @
                [NL, NL] @ example_t881)
               (''x = '' @ [SQ] @ ''a'' @ [CHR 0x0C] @ ''SELECT * FROM t881.'' @ [SQ] @ ''.'')]\<rparr>"
    by (simp add: scan_unit_def read_body_def demo_unit_def out_eval Let_def)
next
  let ?raw = "''DATA x. '' @ [DQ] @ '' old'' @ [CR] @ ''DELETE FROM t882g.''"
  let ?src = "''DATA x.       DELETE FROM t882g.''"
  have src: "rm_strings_and_comments ?raw = ?src"
    by (simp add: san_eval)
  have sel: "finditer STMT_SELECT_RE ?src = []"
    by (simp add: rx_eval)
  have cur: "finditer STMT_OPEN_CURSOR_RE ?src = []"
    by (simp add: rx_eval)
  have wr: "finditer WRITE_STMT_RE ?src =
              [\<lparr>m_start = 14, m_end = 32, m_groups = [(''table2'', 26, 31)]\<rparr>]"
    by (simp add: rx_eval)
  from src sel cur wr
  show "scan_unit (demo_unit ?raw) =
     Inr \<lparr>pgm_name = ''ZDEMO'', inc_name = ''ZDEMO_TOP'', type = ''PROG'', name = Some ''ZDEMO'',
          start_line = Some 1, end_line = Some 10,
          code = Some (''DATA x. '' @ [DQ] @ '' old'' @ [CR] @ ''DELETE FROM t882g.''), rule628_findings = 
            [finding (demo_unit (''DATA x. '' @ [DQ] @ '' old'' @ [CR] @ ''DELETE FROM t882g.'')) ''DisallowedWrite'' ''warning'' 1
               (msg_write ''t882g'') (suggestion_for_write ''t882g'')
               (''DATA x. '' @ [DQ] @ '' old'' @ [CR] @ ''DELETE FROM t882g.'')]\<rparr>"
    by (simp add: scan_unit_def write_body_def demo_unit_def tb_eval out_eval Let_def)
qed

text \<open>
  C5. The claim: a unit with the statement \<^verbatim>\<open>SELECT * FROM t881 INTO TABLE lt_t881.\<close> on
  line 3 has exactly one finding: \<^verbatim>\<open>DirectRead\<close>, \<^verbatim>\<open>info\<close>, line 3, with the suggestion
  that names \<^verbatim>\<open>cl_fins_acdoc_util=>get_t881_emu\<close> and its parameters. The code counts the
  lines in the sanitized text, where the terminators of comment lines are blanked (C1, C2).
  After the two comment lines \<^verbatim>\<open>* a\<close> and \<^verbatim>\<open>* b\<close> the statement starts at offset 8 of the
  raw text, on its line 3, and the one finding, with the issue type, severity and
  suggestion of the claim, has line 1. After two empty lines the finding has line 3.
\<close>

theorem C5_line_after_comment_lines:
  "scan_unit (u\<lparr>code := Some (''* a'' @ [NL] @ ''* b'' @ [NL] @ ''SELECT * FROM t881 INTO TABLE lt_t881.'')\<rparr>) =
     Inr \<lparr>pgm_name = pgm_name u, inc_name = inc_name u, type = type u, name = name u,
          start_line = start_line u, end_line = end_line u,
          code = Some (''* a'' @ [NL] @ ''* b'' @ [NL] @ ''SELECT * FROM t881 INTO TABLE lt_t881.''),
          rule628_findings =
            [finding u ''DirectRead'' ''info'' 1
               (msg_select ''t881'' ''cl_fins_acdoc_util=>get_t881_emu'')
               (''Replace direct read of T881 with cl_fins_acdoc_util=>get_t881_emu.'' @
                [NL, NL] @ example_t881)
               (''* a'' @ [BSL, CHR ''n''] @ ''* b'' @ [BSL, CHR ''n''] @ ''SELECT * FROM t881 INTO TABLE lt_t881.'')]\<rparr> \<and>
   slice (''* a'' @ [NL] @ ''* b'' @ [NL] @ ''SELECT * FROM t881 INTO TABLE lt_t881.'') 8 46 = ''SELECT * FROM t881 INTO TABLE lt_t881.'' \<and>
   line_of_offset (''* a'' @ [NL] @ ''* b'' @ [NL] @ ''SELECT * FROM t881 INTO TABLE lt_t881.'') 8 = 3 \<and>
   scan_unit (u\<lparr>code := Some ([NL, NL] @ ''SELECT * FROM t881 INTO TABLE lt_t881.'')\<rparr>) =
     Inr \<lparr>pgm_name = pgm_name u, inc_name = inc_name u, type = type u, name = name u,
          start_line = start_line u, end_line = end_line u,
          code = Some ([NL, NL] @ ''SELECT * FROM t881 INTO TABLE lt_t881.''),
          rule628_findings =
            [\<lparr>pgm_name = pgm_name u, inc_name = inc_name u, type = type u, name = name u,
              start_line = start_line u, end_line = end_line u,
              issue_type = ''DirectRead'', severity = ''info'', line = 3,
              message =
                ''Direct read from T881 detected in SELECT. '' @
                ''Use cl_fins_acdoc_util=>get_t881_emu instead of SELECT '' @
                [CHR 0xE2, CHR 0x80, CHR 0xA6] @ '' FROM T881.'',
              suggestion =
                ''Replace direct read of T881 with cl_fins_acdoc_util=>get_t881_emu.'' @
                [NL, NL] @
                ''Example:'' @ [NL] @
                ''  DATA(ls_t881) = VALUE t881( ).'' @ [NL] @
                ''  cl_fins_acdoc_util=>get_t881_emu('' @ [NL] @
                ''    EXPORTING iv_rldnr = lv_rldnr'' @ [NL] @
                ''    IMPORTING es_t881  = ls_t881'' @ [NL] @
                ''    EXCEPTIONS not_found = 1 OTHERS = 2 ).'' @ [NL],
              snippet =
                [BSL, CHR ''n'', BSL, CHR ''n''] @ ''SELECT * FROM t881 INTO TABLE lt_t881.''\<rparr>]\<rparr>"
proof (intro conjI)
  let ?stmt = "''SELECT * FROM t881 INTO TABLE lt_t881.''"
  have tb: "find_tables_in_select ?stmt = [(''t881'', 9, 19)]"
    by (simp add: tb_eval rx_eval)
  {
    let ?raw = "''* a'' @ [NL] @ ''* b'' @ [NL] @ ?stmt"
    let ?src = "''        SELECT * FROM t881 INTO TABLE lt_t881.''"
    have src: "rm_strings_and_comments ?raw = ?src"
      by (simp add: san_eval)
    have sel: "finditer STMT_SELECT_RE ?src = [\<lparr>m_start = 8, m_end = 46, m_groups = []\<rparr>]"
      by (simp add: rx_eval)
    have cur: "finditer STMT_OPEN_CURSOR_RE ?src = []"
      by (simp add: rx_eval)
    have wr: "finditer WRITE_STMT_RE ?src = []"
      by (simp add: rx_eval)
    have "slice ?src 8 46 = ?stmt"
      by (simp add: slice_def)
    with src sel cur wr tb
    show "scan_unit (u\<lparr>code := Some ?raw\<rparr>) =
     Inr \<lparr>pgm_name = pgm_name u, inc_name = inc_name u, type = type u, name = name u,
          start_line = start_line u, end_line = end_line u,
          code = Some ?raw,
          rule628_findings =
            [finding u ''DirectRead'' ''info'' 1
               (msg_select ''t881'' ''cl_fins_acdoc_util=>get_t881_emu'')
               (''Replace direct read of T881 with cl_fins_acdoc_util=>get_t881_emu.'' @
                [NL, NL] @ example_t881)
               (''* a'' @ [BSL, CHR ''n''] @ ''* b'' @ [BSL, CHR ''n''] @ ?stmt)]\<rparr>"
      by (simp add: scan_unit_def read_body_def out_eval Let_def)
    show "slice ?raw 8 46 = ?stmt"
      by (simp add: slice_def)
    show "line_of_offset ?raw 8 = 3"
      by (simp add: line_of_offset_def)
  }
  {
    let ?raw = "[NL, NL] @ ?stmt"
    have src: "rm_strings_and_comments ?raw = ?raw"
      by (simp add: san_eval)
    have sel: "finditer STMT_SELECT_RE ?raw = [\<lparr>m_start = 2, m_end = 40, m_groups = []\<rparr>]"
      by (simp add: rx_eval)
    have cur: "finditer STMT_OPEN_CURSOR_RE ?raw = []"
      by (simp add: rx_eval)
    have wr: "finditer WRITE_STMT_RE ?raw = []"
      by (simp add: rx_eval)
    have "slice ?raw 2 40 = ?stmt"
      by (simp add: slice_def)
    with src sel cur wr tb
    show "scan_unit (u\<lparr>code := Some ?raw\<rparr>) =
     Inr \<lparr>pgm_name = pgm_name u, inc_name = inc_name u, type = type u, name = name u,
          start_line = start_line u, end_line = end_line u,
          code = Some ?raw,
          rule628_findings =
            [\<lparr>pgm_name = pgm_name u, inc_name = inc_name u, type = type u, name = name u,
              start_line = start_line u, end_line = end_line u,
              issue_type = ''DirectRead'', severity = ''info'', line = 3,
              message =
                ''Direct read from T881 detected in SELECT. '' @
                ''Use cl_fins_acdoc_util=>get_t881_emu instead of SELECT '' @
                [CHR 0xE2, CHR 0x80, CHR 0xA6] @ '' FROM T881.'',
              suggestion =
                ''Replace direct read of T881 with cl_fins_acdoc_util=>get_t881_emu.'' @
                [NL, NL] @
                ''Example:'' @ [NL] @
                ''  DATA(ls_t881) = VALUE t881( ).'' @ [NL] @
                ''  cl_fins_acdoc_util=>get_t881_emu('' @ [NL] @
                ''    EXPORTING iv_rldnr = lv_rldnr'' @ [NL] @
                ''    IMPORTING es_t881  = ls_t881'' @ [NL] @
                ''    EXCEPTIONS not_found = 1 OTHERS = 2 ).'' @ [NL],
              snippet = [BSL, CHR ''n'', BSL, CHR ''n''] @ ?stmt\<rparr>]\<rparr>"
      by (simp add: scan_unit_def read_body_def out_eval ELLIPSIS_def example_t881_def Let_def)
  }
qed

text \<open>
  C6. A unit whose code is \<^verbatim>\<open>DELETE FROM t882g WHERE bukrs = lv_bukrs.\<close> has exactly one
  finding, with issue type \<^verbatim>\<open>DisallowedWrite\<close> and severity \<^verbatim>\<open>warning\<close>.
\<close>

theorem C6_write_detection:
  "scan_unit (u\<lparr>code := Some ''DELETE FROM t882g WHERE bukrs = lv_bukrs.''\<rparr>) =
     Inr \<lparr>pgm_name = pgm_name u, inc_name = inc_name u, type = type u, name = name u,
          start_line = start_line u, end_line = end_line u,
          code = Some ''DELETE FROM t882g WHERE bukrs = lv_bukrs.'',
          rule628_findings =
            [\<lparr>pgm_name = pgm_name u, inc_name = inc_name u, type = type u, name = name u,
              start_line = start_line u, end_line = end_line u,
              issue_type = ''DisallowedWrite'', severity = ''warning'', line = 1,
              message = ''Disallowed write to T882G detected. Avoid DML on obsolete tables.'',
              suggestion =
                ''Direct writes to T882G are disallowed in S/4HANA. '' @
                ''These tables are obsolete customizing; redesign to use the supported '' @
                ''configuration/APIs and remove the DML.'',
              snippet = ''DELETE FROM t882g WHERE bukrs = lv_bukrs.''\<rparr>]\<rparr>"
  by (rule scan_unit_delete)

text \<open>
  C7. The claim: table matching ignores case and is anchored at a word boundary in every
  statement class. Matching ignores case (\<open>finditer_lower\<close>, \<open>find_tables_in_select_lower\<close>),
  and \<open>FROM_OR_JOIN_TARGET_RE\<close> ends in \<^verbatim>\<open>\b\<close>. \<open>WRITE_STMT_RE\<close> has no boundary after the
  table name: a write to the table \<^verbatim>\<open>t881x\<close>, which is no target table, is reported as a
  write to \<^verbatim>\<open>T881\<close>.
\<close>

theorem C7_write_pattern_not_anchored:
  "scan_unit (u\<lparr>code := Some ''UPDATE t881x SET a = 1.''\<rparr>) =
     Inr \<lparr>pgm_name = pgm_name u, inc_name = inc_name u, type = type u, name = name u,
          start_line = start_line u, end_line = end_line u,
          code = Some ''UPDATE t881x SET a = 1.'',
          rule628_findings =
            [finding u ''DisallowedWrite'' ''warning'' 1
               ''Disallowed write to T881 detected. Avoid DML on obsolete tables.''
               (suggestion_for_write ''t881'') ''UPDATE t881x SET a = 1.'']\<rparr>"
proof -
  let ?raw = "''UPDATE t881x SET a = 1.''"
  have src: "rm_strings_and_comments ?raw = ?raw"
    by (simp add: san_eval)
  have sel: "finditer STMT_SELECT_RE ?raw = []"
    by (simp add: rx_eval)
  have cur: "finditer STMT_OPEN_CURSOR_RE ?raw = []"
    by (simp add: rx_eval)
  have wr: "finditer WRITE_STMT_RE ?raw =
              [\<lparr>m_start = 0, m_end = 23, m_groups = [(''table1'', 7, 11), (''1'', 0, 6)]\<rparr>]"
    by (simp add: rx_eval)
  from src sel cur wr show ?thesis
    by (simp add: scan_unit_def write_body_def tb_eval out_eval Let_def)
qed

text \<open>
  C8. The findings of a unit are those of the \<^verbatim>\<open>SELECT\<close> pass, then those of the
  \<^verbatim>\<open>OPEN CURSOR\<close> pass, then those of the write pass; within a pass there is one finding
  per hit, in the order of the hits, and the offsets of the hits in the scanned text
  increase strictly. Nothing is removed: a statement that reads \<^verbatim>\<open>t881\<close> twice gives two
  equal findings, and they come before the finding of a write that stands earlier in the
  text.
\<close>

theorem C8_findings_order_no_dedup:
  "scan_unit u =
     Inr \<lparr>pgm_name = pgm_name u, inc_name = inc_name u, type = type u, name = name u,
          start_line = start_line u, end_line = end_line u, code = code u,
          rule628_findings =
            map (read_finding u (raw_of u) (rm_strings_and_comments (raw_of u)) msg_select)
                (read_hits STMT_SELECT_RE (rm_strings_and_comments (raw_of u))) @
            map (read_finding u (raw_of u) (rm_strings_and_comments (raw_of u)) msg_cursor)
                (read_hits STMT_OPEN_CURSOR_RE (rm_strings_and_comments (raw_of u))) @
            map (write_finding u (raw_of u) (rm_strings_and_comments (raw_of u)))
                (write_hits (rm_strings_and_comments (raw_of u)))\<rparr> \<and>
   sorted_wrt (<) (map read_offset (read_hits STMT_SELECT_RE (rm_strings_and_comments (raw_of u)))) \<and>
   sorted_wrt (<)
     (map read_offset (read_hits STMT_OPEN_CURSOR_RE (rm_strings_and_comments (raw_of u)))) \<and>
   sorted_wrt (<) (map write_offset (write_hits (rm_strings_and_comments (raw_of u)))) \<and>
   scan_unit
     (u\<lparr>code := Some ''UPDATE t881 SET a = 1. SELECT * FROM t881 JOIN t881 ON a = b.''\<rparr>) =
     Inr \<lparr>pgm_name = pgm_name u, inc_name = inc_name u, type = type u, name = name u,
          start_line = start_line u, end_line = end_line u,
          code = Some ''UPDATE t881 SET a = 1. SELECT * FROM t881 JOIN t881 ON a = b.'',
          rule628_findings =
            [finding u ''DirectRead'' ''info'' 1
               (msg_select ''t881'' ''cl_fins_acdoc_util=>get_t881_emu'')
               (''Replace direct read of T881 with cl_fins_acdoc_util=>get_t881_emu.'' @
                [NL, NL] @ example_t881)
               ''UPDATE t881 SET a = 1. SELECT * FROM t881 JOIN t881 ON a = b.'',
             finding u ''DirectRead'' ''info'' 1
               (msg_select ''t881'' ''cl_fins_acdoc_util=>get_t881_emu'')
               (''Replace direct read of T881 with cl_fins_acdoc_util=>get_t881_emu.'' @
                [NL, NL] @ example_t881)
               ''UPDATE t881 SET a = 1. SELECT * FROM t881 JOIN t881 ON a = b.'',
             finding u ''DisallowedWrite'' ''warning'' 1
               (msg_write ''t881'') (suggestion_for_write ''t881'')
               ''UPDATE t881 SET a = 1. SELECT * FROM t881 JOIN t881 ON a = b.'']\<rparr>"
proof (intro conjI)
  show "scan_unit u =
     Inr \<lparr>pgm_name = pgm_name u, inc_name = inc_name u, type = type u, name = name u,
          start_line = start_line u, end_line = end_line u, code = code u,
          rule628_findings =
            map (read_finding u (raw_of u) (rm_strings_and_comments (raw_of u)) msg_select)
                (read_hits STMT_SELECT_RE (rm_strings_and_comments (raw_of u))) @
            map (read_finding u (raw_of u) (rm_strings_and_comments (raw_of u)) msg_cursor)
                (read_hits STMT_OPEN_CURSOR_RE (rm_strings_and_comments (raw_of u))) @
            map (write_finding u (raw_of u) (rm_strings_and_comments (raw_of u)))
                (write_hits (rm_strings_and_comments (raw_of u)))\<rparr>"
    by (simp add: scan_unit_eq scanned_def findings_of_def Let_def)
next
  let ?raw = "''UPDATE t881 SET a = 1. SELECT * FROM t881 JOIN t881 ON a = b.''"
  have src: "rm_strings_and_comments ?raw = ?raw"
    by (simp add: san_eval)
  have sel: "finditer STMT_SELECT_RE ?raw = [\<lparr>m_start = 23, m_end = 61, m_groups = []\<rparr>]"
    by (simp add: rx_eval)
  have cur: "finditer STMT_OPEN_CURSOR_RE ?raw = []"
    by (simp add: rx_eval)
  have wr: "finditer WRITE_STMT_RE ?raw =
              [\<lparr>m_start = 0, m_end = 22, m_groups = [(''table1'', 7, 11), (''1'', 0, 6)]\<rparr>]"
    by (simp add: rx_eval)
  have tb: "find_tables_in_select ''SELECT * FROM t881 JOIN t881 ON a = b.'' =
              [(''t881'', 9, 19), (''t881'', 19, 29)]"
    by (simp add: tb_eval rx_eval)
  have "slice ?raw 23 61 = ''SELECT * FROM t881 JOIN t881 ON a = b.''"
    by (simp add: slice_def)
  with src sel cur wr tb
  show "scan_unit (u\<lparr>code := Some ?raw\<rparr>) =
     Inr \<lparr>pgm_name = pgm_name u, inc_name = inc_name u, type = type u, name = name u,
          start_line = start_line u, end_line = end_line u,
          code = Some ?raw,
          rule628_findings =
            [finding u ''DirectRead'' ''info'' 1
               (msg_select ''t881'' ''cl_fins_acdoc_util=>get_t881_emu'')
               (''Replace direct read of T881 with cl_fins_acdoc_util=>get_t881_emu.'' @
                [NL, NL] @ example_t881)
               ?raw,
             finding u ''DirectRead'' ''info'' 1
               (msg_select ''t881'' ''cl_fins_acdoc_util=>get_t881_emu'')
               (''Replace direct read of T881 with cl_fins_acdoc_util=>get_t881_emu.'' @
                [NL, NL] @ example_t881)
               ?raw,
             finding u ''DisallowedWrite'' ''warning'' 1
               (msg_write ''t881'') (suggestion_for_write ''t881'')
               ?raw]\<rparr>"
    by (simp add: scan_unit_def read_body_def write_body_def tb_eval out_eval Let_def)
qed (rule read_hits_sorted write_hits_sorted)+

text \<open>
  C9. \<^verbatim>\<open>scan_unit\<close> returns for every unit: every iteration of the model terminates (the
  termination proofs of \<open>scan_line\<close> and \<open>finditer_from\<close>), and the only raising operation,
  the lookup \<^verbatim>\<open>METHOD_MAP[tb]\<close>, is reached with target tables only. The result carries the
  unit's fields and a findings list. Without code, and for a statement without terminator
  that ends in an unterminated string literal, the list is empty.
\<close>

theorem C9_scan_unit_total:
  "(\<exists>fs. scan_unit u =
           Inr \<lparr>pgm_name = pgm_name u, inc_name = inc_name u, type = type u, name = name u,
                start_line = start_line u, end_line = end_line u, code = code u,
                rule628_findings = fs\<rparr>) \<and>
   scan_unit (u\<lparr>code := None\<rparr>) =
     Inr \<lparr>pgm_name = pgm_name u, inc_name = inc_name u, type = type u, name = name u,
          start_line = start_line u, end_line = end_line u, code = None,
          rule628_findings = []\<rparr> \<and>
   scan_unit (u\<lparr>code := Some (''SELECT * FROM t881 WHERE a = '' @ [SQ] @ ''x'')\<rparr>) =
     Inr \<lparr>pgm_name = pgm_name u, inc_name = inc_name u, type = type u, name = name u,
          start_line = start_line u, end_line = end_line u,
          code = Some (''SELECT * FROM t881 WHERE a = '' @ [SQ] @ ''x''),
          rule628_findings = []\<rparr>"
proof (intro conjI)
  show "\<exists>fs. scan_unit u =
           Inr \<lparr>pgm_name = pgm_name u, inc_name = inc_name u, type = type u, name = name u,
                start_line = start_line u, end_line = end_line u, code = code u,
                rule628_findings = fs\<rparr>"
    by (simp add: scan_unit_eq scanned_def)
next
  show "scan_unit (u\<lparr>code := None\<rparr>) =
     Inr \<lparr>pgm_name = pgm_name u, inc_name = inc_name u, type = type u, name = name u,
          start_line = start_line u, end_line = end_line u, code = None,
          rule628_findings = []\<rparr>"
    by (rule scan_unit_no_code)
next
  let ?raw = "''SELECT * FROM t881 WHERE a = '' @ [SQ] @ ''x''"
  let ?src = "''SELECT * FROM t881 WHERE a = '' @ [SQ] @ '' ''"
  have "rm_strings_and_comments (raw_of (u\<lparr>code := Some ?raw\<rparr>)) = ?src"
    by (simp add: raw_of_def san_eval)
  moreover have "finditer STMT_SELECT_RE ?src = []" by (simp add: rx_eval)
  moreover have "finditer STMT_OPEN_CURSOR_RE ?src = []" by (simp add: rx_eval)
  moreover have "finditer WRITE_STMT_RE ?src = []" by (simp add: rx_eval)
  ultimately show "scan_unit (u\<lparr>code := Some ?raw\<rparr>) =
     Inr \<lparr>pgm_name = pgm_name u, inc_name = inc_name u, type = type u, name = name u,
          start_line = start_line u, end_line = end_line u, code = Some ?raw,
          rule628_findings = []\<rparr>"
    using scan_unit_no_statement [of "u\<lparr>code := Some ?raw\<rparr>" ?src] by simp
qed

text \<open>
  C10. The batch interface returns, in order, the results of the units whose findings list
  is not empty. The single-unit interface returns the scan of its unit, that is the unit's
  fields with its findings list, whatever the list. A unit without code is returned by the
  single-unit interface with an empty list and left out by the batch interface; of a batch
  with this unit and a unit with a write, the batch interface returns the result of the
  second unit only, the one the single-unit interface returns for it.
\<close>

theorem C10_batch_omits_single_returns:
  "(\<exists>rs. list_all2 (\<lambda>u r. scan_unit u = Inr r) units rs \<and>
         scan_rule_array units = Inr (filter (\<lambda>r. rule628_findings r \<noteq> []) rs)) \<and>
   scan_rule_single u = scan_unit u \<and>
   (\<exists>fs. scan_rule_single u =
           Inr \<lparr>pgm_name = pgm_name u, inc_name = inc_name u, type = type u, name = name u,
                start_line = start_line u, end_line = end_line u, code = code u,
                rule628_findings = fs\<rparr>) \<and>
   scan_rule_single (u\<lparr>code := None\<rparr>) =
     Inr \<lparr>pgm_name = pgm_name u, inc_name = inc_name u, type = type u, name = name u,
          start_line = start_line u, end_line = end_line u, code = None,
          rule628_findings = []\<rparr> \<and>
   scan_rule_array [u\<lparr>code := None\<rparr>] = Inr [] \<and>
   scan_rule_single (u\<lparr>code := Some ''DELETE FROM t882g WHERE bukrs = lv_bukrs.''\<rparr>) =
     Inr \<lparr>pgm_name = pgm_name u, inc_name = inc_name u, type = type u, name = name u,
          start_line = start_line u, end_line = end_line u,
          code = Some ''DELETE FROM t882g WHERE bukrs = lv_bukrs.'',
          rule628_findings =
            [\<lparr>pgm_name = pgm_name u, inc_name = inc_name u, type = type u, name = name u,
              start_line = start_line u, end_line = end_line u,
              issue_type = ''DisallowedWrite'', severity = ''warning'', line = 1,
              message = ''Disallowed write to T882G detected. Avoid DML on obsolete tables.'',
              suggestion =
                ''Direct writes to T882G are disallowed in S/4HANA. '' @
                ''These tables are obsolete customizing; redesign to use the supported '' @
                ''configuration/APIs and remove the DML.'',
              snippet = ''DELETE FROM t882g WHERE bukrs = lv_bukrs.''\<rparr>]\<rparr> \<and>
   scan_rule_array
     [u\<lparr>code := None\<rparr>, u\<lparr>code := Some ''DELETE FROM t882g WHERE bukrs = lv_bukrs.''\<rparr>] =
     Inr [\<lparr>pgm_name = pgm_name u, inc_name = inc_name u, type = type u, name = name u,
          start_line = start_line u, end_line = end_line u,
          code = Some ''DELETE FROM t882g WHERE bukrs = lv_bukrs.'',
          rule628_findings =
            [\<lparr>pgm_name = pgm_name u, inc_name = inc_name u, type = type u, name = name u,
              start_line = start_line u, end_line = end_line u,
              issue_type = ''DisallowedWrite'', severity = ''warning'', line = 1,
              message = ''Disallowed write to T882G detected. Avoid DML on obsolete tables.'',
              suggestion =
                ''Direct writes to T882G are disallowed in S/4HANA. '' @
                ''These tables are obsolete customizing; redesign to use the supported '' @
                ''configuration/APIs and remove the DML.'',
              snippet = ''DELETE FROM t882g WHERE bukrs = lv_bukrs.''\<rparr>]\<rparr>]"
proof (intro conjI)
  have "list_all2 (\<lambda>u r. scan_unit u = Inr r) units (map scanned units)"
    by (simp add: list_all2_conv_all_nth scan_unit_eq)
  with scan_rule_array_eq [of units]
  show "\<exists>rs. list_all2 (\<lambda>u r. scan_unit u = Inr r) units rs \<and>
         scan_rule_array units = Inr (filter (\<lambda>r. rule628_findings r \<noteq> []) rs)"
    by blast
next
  show "scan_rule_single u = scan_unit u"
    by (simp add: scan_rule_single_def)
next
  show "\<exists>fs. scan_rule_single u =
           Inr \<lparr>pgm_name = pgm_name u, inc_name = inc_name u, type = type u, name = name u,
                start_line = start_line u, end_line = end_line u, code = code u,
                rule628_findings = fs\<rparr>"
    by (simp add: scan_rule_single_def scan_unit_eq scanned_def)
next
  show "scan_rule_single (u\<lparr>code := None\<rparr>) =
     Inr \<lparr>pgm_name = pgm_name u, inc_name = inc_name u, type = type u, name = name u,
          start_line = start_line u, end_line = end_line u, code = None,
          rule628_findings = []\<rparr>"
    by (simp add: scan_rule_single_def scan_unit_no_code)
next
  show "scan_rule_array [u\<lparr>code := None\<rparr>] = Inr []"
    by (simp add: scan_rule_array_def scan_unit_no_code)
next
  show "scan_rule_single (u\<lparr>code := Some ''DELETE FROM t882g WHERE bukrs = lv_bukrs.''\<rparr>) =
     Inr \<lparr>pgm_name = pgm_name u, inc_name = inc_name u, type = type u, name = name u,
          start_line = start_line u, end_line = end_line u,
          code = Some ''DELETE FROM t882g WHERE bukrs = lv_bukrs.'',
          rule628_findings =
            [\<lparr>pgm_name = pgm_name u, inc_name = inc_name u, type = type u, name = name u,
              start_line = start_line u, end_line = end_line u,
              issue_type = ''DisallowedWrite'', severity = ''warning'', line = 1,
              message = ''Disallowed write to T882G detected. Avoid DML on obsolete tables.'',
              suggestion =
                ''Direct writes to T882G are disallowed in S/4HANA. '' @
                ''These tables are obsolete customizing; redesign to use the supported '' @
                ''configuration/APIs and remove the DML.'',
              snippet = ''DELETE FROM t882g WHERE bukrs = lv_bukrs.''\<rparr>]\<rparr>"
    by (simp only: scan_rule_single_def scan_unit_delete)
next
  show "scan_rule_array
     [u\<lparr>code := None\<rparr>, u\<lparr>code := Some ''DELETE FROM t882g WHERE bukrs = lv_bukrs.''\<rparr>] =
     Inr [\<lparr>pgm_name = pgm_name u, inc_name = inc_name u, type = type u, name = name u,
          start_line = start_line u, end_line = end_line u,
          code = Some ''DELETE FROM t882g WHERE bukrs = lv_bukrs.'',
          rule628_findings =
            [\<lparr>pgm_name = pgm_name u, inc_name = inc_name u, type = type u, name = name u,
              start_line = start_line u, end_line = end_line u,
              issue_type = ''DisallowedWrite'', severity = ''warning'', line = 1,
              message = ''Disallowed write to T882G detected. Avoid DML on obsolete tables.'',
              suggestion =
                ''Direct writes to T882G are disallowed in S/4HANA. '' @
                ''These tables are obsolete customizing; redesign to use the supported '' @
                ''configuration/APIs and remove the DML.'',
              snippet = ''DELETE FROM t882g WHERE bukrs = lv_bukrs.''\<rparr>]\<rparr>]"
    by (simp add: scan_rule_array_def scan_unit_no_code scan_unit_delete)
qed

end
